theory Spec2Isabelle
  imports Main "HOL-Library.Word" "HOL-Library.Sublist"
begin

section \<open>Conversion of a sharded LLaMA checkpoint to a ggjt file\<close>

text \<open>
  A shallow embedding of \<^verbatim>\<open>convert-pth-to-ggml.py\<close>. Python integers are \<open>int\<close>,
  Python strings are lists of code points, bytes are \<open>8 word\<close>, the output file is a
  store of bytes with its size and an explicit cursor, and every exception or
  \<^verbatim>\<open>sys.exit\<close> of the script is a value of \<open>error\<close>.
\<close>

subsection \<open>Errors, bytes and strings\<close>

datatype error =
    KeyError
  | ZeroDivisionError
  | StructError
  | ValueError
  | UnicodeEncodeError
  | AssertionError
  | FileNotFoundError
  | OSError
  | SysExit int

type_synonym byte = "8 word"

text \<open>A Python \<^verbatim>\<open>str\<close>: a sequence of Unicode code points; \<^verbatim>\<open>len\<close> counts code points.\<close>

type_synonym pystr = "nat list"

definition py_str :: "string \<Rightarrow> pystr" where
  "py_str s = map of_char s"

subsection \<open>Type registry\<close>

definition QK :: int where
  "QK = 32"

datatype ggml_type =
  GGML_TYPE_Q4_0 | GGML_TYPE_Q4_1 | GGML_TYPE_I8 | GGML_TYPE_I16 | GGML_TYPE_I32
  | GGML_TYPE_F16 | GGML_TYPE_F32

text \<open>The integer constant each type name is bound to in the script.\<close>

fun ggml_type_id :: "ggml_type \<Rightarrow> int" where
  "ggml_type_id GGML_TYPE_Q4_0 = 0"
| "ggml_type_id GGML_TYPE_Q4_1 = 1"
| "ggml_type_id GGML_TYPE_I8 = 2"
| "ggml_type_id GGML_TYPE_I16 = 3"
| "ggml_type_id GGML_TYPE_I32 = 4"
| "ggml_type_id GGML_TYPE_F16 = 5"
| "ggml_type_id GGML_TYPE_F32 = 6"

text \<open>The dictionary \<^verbatim>\<open>WTYPES\<close>; a key outside 0..3 raises \<^verbatim>\<open>KeyError\<close>.\<close>

definition WTYPES :: "int \<Rightarrow> error + ggml_type" where
  "WTYPES ftype =
     (if ftype = 0 then Inr GGML_TYPE_F32
      else if ftype = 1 then Inr GGML_TYPE_F16
      else if ftype = 2 then Inr GGML_TYPE_Q4_0
      else if ftype = 3 then Inr GGML_TYPE_Q4_1
      else Inl KeyError)"

fun GGML_BLCK_SIZE :: "ggml_type \<Rightarrow> int" where
  "GGML_BLCK_SIZE GGML_TYPE_Q4_0 = QK"
| "GGML_BLCK_SIZE GGML_TYPE_Q4_1 = QK"
| "GGML_BLCK_SIZE GGML_TYPE_I8 = 1"
| "GGML_BLCK_SIZE GGML_TYPE_I16 = 1"
| "GGML_BLCK_SIZE GGML_TYPE_I32 = 1"
| "GGML_BLCK_SIZE GGML_TYPE_F16 = 1"
| "GGML_BLCK_SIZE GGML_TYPE_F32 = 1"

fun GGML_TYPE_SIZE :: "ggml_type \<Rightarrow> int" where
  "GGML_TYPE_SIZE GGML_TYPE_Q4_0 = 4 + QK div 2"
| "GGML_TYPE_SIZE GGML_TYPE_Q4_1 = 4 * 2 + QK div 2"
| "GGML_TYPE_SIZE GGML_TYPE_I8 = 1"
| "GGML_TYPE_SIZE GGML_TYPE_I16 = 2"
| "GGML_TYPE_SIZE GGML_TYPE_I32 = 4"
| "GGML_TYPE_SIZE GGML_TYPE_F16 = 2"
| "GGML_TYPE_SIZE GGML_TYPE_F32 = 4"

text \<open>\<^verbatim>\<open>ggml_nelements\<close>: the loop \<^verbatim>\<open>for i in shape: r *= i\<close> starting from 1.\<close>

definition ggml_nelements :: "int list \<Rightarrow> int" where
  "ggml_nelements shape = fold (\<lambda>i r. r * i) shape 1"

text \<open>\<^verbatim>\<open>ggml_nbytes\<close>: \<^verbatim>\<open>//\<close> is floor division, as \<open>div\<close> on \<open>int\<close>.\<close>

definition ggml_nbytes :: "int list \<Rightarrow> int \<Rightarrow> error + int" where
  "ggml_nbytes shape ftype =
     (let x = ggml_nelements shape in
      case WTYPES ftype of
        Inl e \<Rightarrow> Inl e
      | Inr t \<Rightarrow>
          (let x = x * GGML_TYPE_SIZE t;
               x = x div GGML_BLCK_SIZE t
           in Inr x))"

subsection \<open>Python built-ins used by the script\<close>

text \<open>\<^verbatim>\<open>a // b\<close> on integers: floor division, \<^verbatim>\<open>ZeroDivisionError\<close> when \<open>b = 0\<close>.\<close>

definition py_floordiv :: "int \<Rightarrow> int \<Rightarrow> error + int" where
  "py_floordiv a b = (if b = 0 then Inl ZeroDivisionError else Inr (a div b))"

text \<open>
  \<^verbatim>\<open>str.encode()\<close>: UTF-8, strict. A surrogate code point raises
  \<^verbatim>\<open>UnicodeEncodeError\<close>. (A Python string holds no code point above \<open>0x10FFFF\<close>.)
\<close>

definition utf8_char :: "nat \<Rightarrow> error + byte list" where
  "utf8_char c =
     (if c < 0x80 then Inr [of_nat c]
      else if c < 0x800 then Inr [of_nat (0xC0 + c div 64), of_nat (0x80 + c mod 64)]
      else if 0xD800 \<le> c \<and> c < 0xE000 then Inl UnicodeEncodeError
      else if c < 0x10000 then
        Inr [of_nat (0xE0 + c div 4096), of_nat (0x80 + c div 64 mod 64),
             of_nat (0x80 + c mod 64)]
      else
        Inr [of_nat (0xF0 + c div 262144), of_nat (0x80 + c div 4096 mod 64),
             of_nat (0x80 + c div 64 mod 64), of_nat (0x80 + c mod 64)])"

fun encode :: "pystr \<Rightarrow> error + byte list" where
  "encode [] = Inr []"
| "encode (c # cs) =
     (case utf8_char c of
        Inl e \<Rightarrow> Inl e
      | Inr b \<Rightarrow> (case encode cs of Inl e \<Rightarrow> Inl e | Inr bs \<Rightarrow> Inr (b @ bs)))"

text \<open>\<^verbatim>\<open>s.replace(old, new)\<close> for one-character \<open>old\<close> and \<open>new\<close>.\<close>

definition replace_char :: "nat \<Rightarrow> nat \<Rightarrow> pystr \<Rightarrow> pystr" where
  "replace_char old new s = map (\<lambda>c. if c = old then new else c) s"

text \<open>
  \<^verbatim>\<open>int(s, 16)\<close>. On a non-empty string of ASCII hexadecimal digits it is the number
  they spell. Python's \<^verbatim>\<open>int\<close> also accepts signs, a \<^verbatim>\<open>0x\<close> prefix, underscores,
  surrounding white space and non-ASCII digits, and raises \<^verbatim>\<open>ValueError\<close> on the rest:
  that part of the built-in is the parameter \<open>int_other\<close>.
\<close>

definition hex_digit :: "nat \<Rightarrow> nat option" where
  "hex_digit c =
     (if 48 \<le> c \<and> c \<le> 57 then Some (c - 48)
      else if 97 \<le> c \<and> c \<le> 102 then Some (c - 87)
      else if 65 \<le> c \<and> c \<le> 70 then Some (c - 55)
      else None)"

fun hex_value :: "int \<Rightarrow> pystr \<Rightarrow> int option" where
  "hex_value acc [] = Some acc"
| "hex_value acc (c # cs) =
     (case hex_digit c of None \<Rightarrow> None | Some d \<Rightarrow> hex_value (acc * 16 + int d) cs)"

definition int_base16 :: "(pystr \<Rightarrow> error + int) \<Rightarrow> pystr \<Rightarrow> error + int" where
  "int_base16 int_other s =
     (if s = [] then int_other s
      else case hex_value 0 s of None \<Rightarrow> int_other s | Some v \<Rightarrow> Inr v)"

subsection \<open>\<^verbatim>\<open>struct.pack\<close>\<close>

text \<open>
  The formats \<^verbatim>\<open>i\<close>, \<^verbatim>\<open>B\<close> and \<^verbatim>\<open>f\<close> in native mode: 4, 1 and 4 bytes, in the byte
  order of the host, which is a parameter. A value outside the format's range raises
  \<^verbatim>\<open>struct.error\<close>; negative values of \<^verbatim>\<open>i\<close> are two's complement.
\<close>

datatype endian = LittleEndian | BigEndian

definition le_bytes :: "nat \<Rightarrow> int \<Rightarrow> byte list" where
  "le_bytes n v = map (\<lambda>k. word_of_int (v div 256 ^ k)) [0..<n]"

definition native :: "endian \<Rightarrow> byte list \<Rightarrow> byte list" where
  "native bo bs = (case bo of LittleEndian \<Rightarrow> bs | BigEndian \<Rightarrow> rev bs)"

definition pack_i :: "endian \<Rightarrow> int \<Rightarrow> error + byte list" where
  "pack_i bo v =
     (if - (2 ^ 31) \<le> v \<and> v < 2 ^ 31 then Inr (native bo (le_bytes 4 v))
      else Inl StructError)"

text \<open>A format of several \<^verbatim>\<open>i\<close>: all values are packed, or none.\<close>

fun pack_is :: "endian \<Rightarrow> int list \<Rightarrow> error + byte list" where
  "pack_is bo [] = Inr []"
| "pack_is bo (v # vs) =
     (case pack_i bo v of
        Inl e \<Rightarrow> Inl e
      | Inr b \<Rightarrow> (case pack_is bo vs of Inl e \<Rightarrow> Inl e | Inr bs \<Rightarrow> Inr (b @ bs)))"

definition pack_B :: "int \<Rightarrow> error + byte list" where
  "pack_B v = (if 0 \<le> v \<and> v \<le> 255 then Inr [word_of_int v] else Inl StructError)"

text \<open>A score is kept as the bit pattern of its 32-bit float.\<close>

definition pack_f :: "endian \<Rightarrow> 32 word \<Rightarrow> byte list" where
  "pack_f bo w = native bo (le_bytes 4 (uint w))"

text \<open>Reading a 4-byte native integer back, for stating what a field holds.\<close>

definition unpack_i :: "endian \<Rightarrow> byte list \<Rightarrow> int" where
  "unpack_i bo bs = sint (word_of_int (horner_sum uint 256 (native bo bs)) :: 32 word)"

fun unpack_is :: "endian \<Rightarrow> nat \<Rightarrow> byte list \<Rightarrow> int list" where
  "unpack_is bo 0 bs = []"
| "unpack_is bo (Suc n) bs = unpack_i bo (take 4 bs) # unpack_is bo n (drop 4 bs)"

text \<open>The range of the format \<^verbatim>\<open>i\<close>.\<close>

definition int32 :: "int \<Rightarrow> bool" where
  "int32 v \<longleftrightarrow> - (2 ^ 31) \<le> v \<and> v < 2 ^ 31"

subsection \<open>The output file\<close>

text \<open>
  A binary file opened for writing: a store of bytes, its size and the cursor.
  \<^verbatim>\<open>seek\<close> may move the cursor past the end; a later write there fills the gap with
  zero bytes. Writing an empty byte string changes nothing.
\<close>

record outfile =
  bytes_at :: "nat \<Rightarrow> byte"
  fsize :: nat
  cursor :: nat

definition fopen_wb :: outfile where
  "fopen_wb = \<lparr>bytes_at = (\<lambda>i. 0), fsize = 0, cursor = 0\<rparr>"

definition fout_write :: "outfile \<Rightarrow> byte list \<Rightarrow> outfile" where
  "fout_write fout bs =
     (if bs = [] then fout
      else
        \<lparr>bytes_at = (\<lambda>i. if cursor fout \<le> i \<and> i < cursor fout + length bs
                          then bs ! (i - cursor fout)
                          else if fsize fout \<le> i then 0
                          else bytes_at fout i),
         fsize = max (fsize fout) (cursor fout + length bs),
         cursor = cursor fout + length bs\<rparr>)"

definition fout_tell :: "outfile \<Rightarrow> int" where
  "fout_tell fout = int (cursor fout)"

definition fout_seek :: "outfile \<Rightarrow> int \<Rightarrow> error + outfile" where
  "fout_seek fout p = (if p < 0 then Inl OSError else Inr (fout\<lparr>cursor := nat p\<rparr>))"

text \<open>The file as a byte string, and a region of it.\<close>

definition file_bytes :: "outfile \<Rightarrow> byte list" where
  "file_bytes fout = map (bytes_at fout) [0..<fsize fout]"

definition region :: "outfile \<Rightarrow> nat \<Rightarrow> nat \<Rightarrow> byte list" where
  "region fout start n = map (bytes_at fout) [start..<start + n]"

text \<open>
  \<open>same_below m f g\<close>: the file \<open>g\<close> is no shorter than \<open>f\<close> and holds the bytes of
  \<open>f\<close> at every offset below \<open>m\<close>.
\<close>

definition same_below :: "nat \<Rightarrow> outfile \<Rightarrow> outfile \<Rightarrow> bool" where
  "same_below m f g \<longleftrightarrow> (\<forall>i<m. bytes_at g i = bytes_at f i) \<and> fsize f \<le> fsize g"

subsection \<open>Hyperparameters, tokenizer and header\<close>

text \<open>
  \<^verbatim>\<open>hparams\<close> is the dictionary read from \<^verbatim>\<open>params.json\<close>; a missing key raises
  \<^verbatim>\<open>KeyError\<close>.
\<close>

type_synonym hparams = "string \<rightharpoonup> int"

definition hget :: "hparams \<Rightarrow> string \<Rightarrow> error + int" where
  "hget hp key = (case hp key of None \<Rightarrow> Inl KeyError | Some v \<Rightarrow> Inr v)"

fun hgets :: "hparams \<Rightarrow> string list \<Rightarrow> error + int list" where
  "hgets hp [] = Inr []"
| "hgets hp (key # keys) =
     (case hget hp key of
        Inl e \<Rightarrow> Inl e
      | Inr v \<Rightarrow> (case hgets hp keys of Inl e \<Rightarrow> Inl e | Inr vs \<Rightarrow> Inr (v # vs)))"

text \<open>
  The \<^verbatim>\<open>SentencePieceProcessor\<close>, by the calls the script makes on it.
\<close>

record tokenizer =
  vocab_size :: nat
  is_unknown :: "nat \<Rightarrow> bool"
  is_control :: "nat \<Rightarrow> bool"
  is_byte :: "nat \<Rightarrow> bool"
  id_to_piece :: "nat \<Rightarrow> pystr"
  get_score :: "nat \<Rightarrow> 32 word"

text \<open>
  \<^verbatim>\<open>load_hparams_and_tokenizer\<close>, after the two files have been read:
  \<open>json\<close> is the content of \<^verbatim>\<open>params.json\<close>.
\<close>

definition load_hparams_and_tokenizer :: "hparams \<Rightarrow> tokenizer \<Rightarrow> hparams \<times> tokenizer" where
  "load_hparams_and_tokenizer json tok =
     (json(''vocab_size'' \<mapsto> int (vocab_size tok)), tok)"

definition header_keys :: "string list" where
  "header_keys = [''vocab_size'', ''dim'', ''multiple_of'', ''n_heads'', ''n_layers'']"

definition header_values :: "hparams \<Rightarrow> int \<Rightarrow> error + int list" where
  "header_values hp ftype =
     (case hgets hp header_keys of
        Inl e \<Rightarrow> Inl e
      | Inr vals \<Rightarrow>
          (case hget hp ''dim'' of
             Inl e \<Rightarrow> Inl e
           | Inr d \<Rightarrow>
               (case hget hp ''n_heads'' of
                  Inl e \<Rightarrow> Inl e
                | Inr h \<Rightarrow>
                    (case py_floordiv d h of
                       Inl e \<Rightarrow> Inl e
                     | Inr rot \<Rightarrow> Inr ([0x67676a74, 1] @ vals @ [rot, ftype])))))"

definition write_header :: "endian \<Rightarrow> outfile \<Rightarrow> hparams \<Rightarrow> int \<Rightarrow> error + outfile" where
  "write_header bo fout hp ftype =
     (case header_values hp ftype of
        Inl e \<Rightarrow> Inl e
      | Inr values \<Rightarrow>
          (case pack_is bo values of
             Inl e \<Rightarrow> Inl e
           | Inr bs \<Rightarrow> Inr (fout_write fout bs)))"

subsection \<open>Vocabulary\<close>

text \<open>The text of entry \<open>i\<close>: the \<^verbatim>\<open>if\<close> chain of \<^verbatim>\<open>write_tokens\<close>.\<close>

definition token_text :: "(pystr \<Rightarrow> error + int) \<Rightarrow> tokenizer \<Rightarrow> nat \<Rightarrow> error + byte list" where
  "token_text int_other tok i =
     (if is_unknown tok i then encode [0x20, 0x2047, 0x20]
      else if is_control tok i then Inr []
      else if is_byte tok i then
        (let piece = id_to_piece tok i in
         if length piece \<noteq> 6 then Inl (SysExit 1)
         else
           (case int_base16 int_other (drop 3 (butlast piece)) of
              Inl e \<Rightarrow> Inl e
            | Inr byte_value \<Rightarrow> pack_B byte_value))
      else encode (replace_char 0x2581 0x20 (id_to_piece tok i)))"

text \<open>One loop iteration: the text, then the three writes (length, text, score).\<close>

definition write_token ::
  "endian \<Rightarrow> (pystr \<Rightarrow> error + int) \<Rightarrow> outfile \<Rightarrow> tokenizer \<Rightarrow> nat \<Rightarrow> error + outfile" where
  "write_token bo int_other fout tok i =
     (case token_text int_other tok i of
        Inl e \<Rightarrow> Inl e
      | Inr text \<Rightarrow>
          (case pack_i bo (int (length text)) of
             Inl e \<Rightarrow> Inl e
           | Inr len \<Rightarrow>
               Inr (fout_write (fout_write (fout_write fout len) text)
                      (pack_f bo (get_score tok i)))))"

text \<open>The bytes of the three writes of one iteration, as one string.\<close>

definition token_record ::
  "endian \<Rightarrow> (pystr \<Rightarrow> error + int) \<Rightarrow> tokenizer \<Rightarrow> nat \<Rightarrow> error + byte list" where
  "token_record bo int_other tok i =
     (case token_text int_other tok i of
        Inl e \<Rightarrow> Inl e
      | Inr text \<Rightarrow>
          (case pack_i bo (int (length text)) of
             Inl e \<Rightarrow> Inl e
           | Inr len \<Rightarrow> Inr (len @ text @ pack_f bo (get_score tok i))))"

fun write_tokens_loop ::
  "endian \<Rightarrow> (pystr \<Rightarrow> error + int) \<Rightarrow> outfile \<Rightarrow> tokenizer \<Rightarrow> nat list \<Rightarrow> error + outfile" where
  "write_tokens_loop bo int_other fout tok [] = Inr fout"
| "write_tokens_loop bo int_other fout tok (i # is) =
     (case write_token bo int_other fout tok i of
        Inl e \<Rightarrow> Inl e
      | Inr fout' \<Rightarrow> write_tokens_loop bo int_other fout' tok is)"

definition write_tokens ::
  "endian \<Rightarrow> (pystr \<Rightarrow> error + int) \<Rightarrow> outfile \<Rightarrow> tokenizer \<Rightarrow> error + outfile" where
  "write_tokens bo int_other fout tok =
     write_tokens_loop bo int_other fout tok [0..<vocab_size tok]"

subsection \<open>Shard count\<close>

definition get_n_parts :: "int \<Rightarrow> error + int" where
  "get_n_parts dim =
     (case map_of [(4096, 1), (5120, 2), (6656, 4), (8192, 8)] dim of
        None \<Rightarrow> Inl (SysExit 1)
      | Some n_parts \<Rightarrow> Inr n_parts)"

subsection \<open>Tensors\<close>

text \<open>
  A numpy array: shape, element type and the elements in row-major order. The elements
  are abstract values; the raw bytes \<^verbatim>\<open>tofile\<close> writes for one element under an
  element type are given by the parameter \<open>enc\<close>.
\<close>

datatype np_dtype = Float16 | Float32 | Float64

record 'e ndarray =
  arr_shape :: "nat list"
  arr_dtype :: np_dtype
  arr_elems :: "'e list"

definition squeeze :: "'e ndarray \<Rightarrow> 'e ndarray" where
  "squeeze a = a\<lparr>arr_shape := filter (\<lambda>d. d \<noteq> 1) (arr_shape a)\<rparr>"

definition astype :: "'e ndarray \<Rightarrow> np_dtype \<Rightarrow> 'e ndarray" where
  "astype a dt = a\<lparr>arr_dtype := dt\<rparr>"

definition tobytes :: "(np_dtype \<Rightarrow> 'e \<Rightarrow> byte list) \<Rightarrow> 'e ndarray \<Rightarrow> byte list" where
  "tobytes enc a = concat (map (enc (arr_dtype a)) (arr_elems a))"

definition tofile :: "(np_dtype \<Rightarrow> 'e \<Rightarrow> byte list) \<Rightarrow> 'e ndarray \<Rightarrow> outfile \<Rightarrow> outfile" where
  "tofile enc a fout = fout_write fout (tobytes enc a)"

text \<open>\<^verbatim>\<open>data[row]\<close> of a rank-2 array.\<close>

definition get_row :: "'e ndarray \<Rightarrow> nat \<Rightarrow> 'e ndarray" where
  "get_row a row =
     (let ncols = arr_shape a ! 1 in
      \<lparr>arr_shape = [ncols], arr_dtype = arr_dtype a,
       arr_elems = take ncols (drop (row * ncols) (arr_elems a))\<rparr>)"

text \<open>A loaded checkpoint: \<^verbatim>\<open>model.items()\<close>, in order.\<close>

type_synonym 'e model = "(pystr \<times> 'e ndarray) list"

text \<open>Lines 150-154: the encoding of this tensor and the conversion of its data.\<close>

definition convert_data :: "int \<Rightarrow> int \<Rightarrow> 'e ndarray \<Rightarrow> int \<times> 'e ndarray" where
  "convert_data ftype n_dims data =
     (if ftype = 0 \<or> n_dims = 1 then (0, astype data Float32) else (1, data))"

text \<open>Lines 159-170: the partition axis of a rank-2 tensor, from its name.\<close>

definition split_dim_of :: "pystr \<Rightarrow> int" where
  "split_dim_of name =
     (if sublist (py_str ''tok_embeddings'') name then 1
      else if sublist (py_str ''layers'') name then
        (if sublist (py_str ''attention.wo.weight'') name then 1
         else if sublist (py_str ''feed_forward.w2.weight'') name then 1
         else 0)
      else if sublist (py_str ''output'') name then 0
      else 1)"

text \<open>
  The same decision as the specification words it (section 4.3, rule 3): a table of
  rows read top to bottom; the first row all of whose markers occur in the name gives the
  axis, and a name that matches no row gets axis 1.
\<close>

definition spec_axis_table :: "(string list \<times> int) list" where
  "spec_axis_table =
     [([''tok_embeddings''], 1),
      ([''layers'', ''attention.wo.weight''], 1),
      ([''layers'', ''feed_forward.w2.weight''], 1),
      ([''layers''], 0),
      ([''output''], 0)]"

fun first_match :: "(string list \<times> int) list \<Rightarrow> pystr \<Rightarrow> int \<Rightarrow> int" where
  "first_match [] name dflt = dflt"
| "first_match (row # rows) name dflt =
     (if list_all (\<lambda>m. sublist (py_str m) name) (fst row) then snd row
      else first_match rows name dflt)"

definition spec_split_axis :: "pystr \<Rightarrow> int" where
  "spec_split_axis name = first_match spec_axis_table name 1"

text \<open>
  The unsharded tensor as the specification describes it (sections 4.4 and 8): each of
  the \<open>n_parts\<close> shards holds an equal block of rows (axis 0) or of columns (axis 1)
  of a rank-2 tensor. \<open>spec_full_shape\<close> is the shape of the whole tensor and
  \<open>spec_unsharded_body\<close> its row-major bytes, put together from the shards in shard
  order.
\<close>

definition spec_full_shape :: "int \<Rightarrow> int \<Rightarrow> int list \<Rightarrow> int list" where
  "spec_full_shape n_parts split_dim partshape =
     (if length partshape = 2 \<and> n_parts \<noteq> 1
      then partshape[nat split_dim := n_parts * partshape ! nat split_dim]
      else partshape)"

definition spec_unsharded_body ::
  "(np_dtype \<Rightarrow> 'e \<Rightarrow> byte list) \<Rightarrow> int \<Rightarrow> 'e ndarray list \<Rightarrow> byte list" where
  "spec_unsharded_body enc split_dim shards =
     (if split_dim = 0 then concat (map (tobytes enc) shards)
      else concat (map (\<lambda>row. concat (map (\<lambda>shard. tobytes enc (get_row shard row)) shards))
                    [0..<arr_shape (hd shards) ! 0]))"

text \<open>Lines 172-176: the three integers, the dimensions in reverse, the name.\<close>

fun write_dims :: "endian \<Rightarrow> outfile \<Rightarrow> int list \<Rightarrow> error + outfile" where
  "write_dims bo fout [] = Inr fout"
| "write_dims bo fout (dim # dims) =
     (case pack_i bo dim of
        Inl e \<Rightarrow> Inl e
      | Inr b \<Rightarrow> write_dims bo (fout_write fout b) dims)"

definition write_tensor_header ::
  "endian \<Rightarrow> outfile \<Rightarrow> pystr \<Rightarrow> int \<Rightarrow> int \<Rightarrow> int list \<Rightarrow> error + outfile" where
  "write_tensor_header bo fout name n_dims ftype_cur partshape =
     (case encode name of
        Inl e \<Rightarrow> Inl e
      | Inr sname \<Rightarrow>
          (case pack_is bo [n_dims, int (length sname), ftype_cur] of
             Inl e \<Rightarrow> Inl e
           | Inr b \<Rightarrow>
               (case write_dims bo (fout_write fout b) (rev partshape) of
                  Inl e \<Rightarrow> Inl e
                | Inr fout' \<Rightarrow> Inr (fout_write fout' sname))))"

text \<open>Lines 179-181: zero bytes until the offset is a multiple of \<open>QK\<close>.\<close>

function align_loop :: "outfile \<Rightarrow> int \<Rightarrow> outfile \<times> int" where
  "align_loop fout tensor_data_offset =
     (if tensor_data_offset mod QK \<noteq> 0
      then align_loop (fout_write fout [0]) (tensor_data_offset + 1)
      else (fout, tensor_data_offset))"
  by pat_completeness auto
termination
proof (relation "measure (\<lambda>(fout, off). nat ((- off) mod 32))")
  show "wf (measure (\<lambda>(fout, off). nat ((- off) mod 32)))"
    by simp
next
  fix fout :: outfile and tensor_data_offset :: int
  assume "tensor_data_offset mod QK \<noteq> 0"
  then have h: "tensor_data_offset mod 32 \<noteq> 0"
    by (simp add: QK_def)
  have r: "0 \<le> tensor_data_offset mod 32" "tensor_data_offset mod 32 < 32"
    by simp_all
  have e: "(- tensor_data_offset) mod 32 = 32 - tensor_data_offset mod 32"
    using h by (simp add: zmod_zminus1_eq_if)
  have s: "(tensor_data_offset + 1) mod 32 = (tensor_data_offset mod 32 + 1) mod 32"
    by (simp add: mod_add_left_eq)
  have "(- (tensor_data_offset + 1)) mod 32 < (- tensor_data_offset) mod 32"
  proof (cases "tensor_data_offset mod 32 = 31")
    case True
    then have "(tensor_data_offset + 1) mod 32 = 0"
      using s by simp
    then have "(- (tensor_data_offset + 1)) mod 32 = 0"
      using zmod_zminus1_eq_if [of "tensor_data_offset + 1" 32] by simp
    then show ?thesis
      using e r by linarith
  next
    case False
    then have "tensor_data_offset mod 32 + 1 < 32"
      using r by linarith
    then have "(tensor_data_offset + 1) mod 32 = tensor_data_offset mod 32 + 1"
      using s r by simp
    then have "(- (tensor_data_offset + 1)) mod 32 = 32 - (tensor_data_offset mod 32 + 1)"
      using r zmod_zminus1_eq_if [of "tensor_data_offset + 1" 32] by simp
    then show ?thesis
      using e by linarith
  qed
  then show "((fout_write fout [0], tensor_data_offset + 1), (fout, tensor_data_offset))
        \<in> measure (\<lambda>(fout, off). nat ((- off) mod 32))"
    by simp
qed

declare align_loop.simps [simp del]

text \<open>Lines 172-181: header, name and padding; returns the body-start offset too.\<close>

definition begin_record ::
  "endian \<Rightarrow> outfile \<Rightarrow> pystr \<Rightarrow> int \<Rightarrow> int \<Rightarrow> int list \<Rightarrow> error + outfile \<times> int" where
  "begin_record bo fout name n_dims ftype_cur partshape =
     (case write_tensor_header bo fout name n_dims ftype_cur partshape of
        Inl e \<Rightarrow> Inl e
      | Inr fout' \<Rightarrow> Inr (align_loop fout' (fout_tell fout')))"

text \<open>Lines 198-202: one seek and one write for each row of the shard.\<close>

fun write_rows ::
  "(np_dtype \<Rightarrow> 'e \<Rightarrow> byte list) \<Rightarrow> outfile \<Rightarrow> int \<Rightarrow> 'e ndarray \<Rightarrow> int \<Rightarrow> int \<Rightarrow> nat list
     \<Rightarrow> error + outfile" where
  "write_rows enc fout tensor_data_offset data bytes_per_row offset_current_col [] = Inr fout"
| "write_rows enc fout tensor_data_offset data bytes_per_row offset_current_col (row # rows) =
     (let offset_row = int row * bytes_per_row;
          offset = offset_row + offset_current_col
      in case fout_seek fout (tensor_data_offset + offset) of
           Inl e \<Rightarrow> Inl e
         | Inr fout' \<Rightarrow>
             write_rows enc (tofile enc (get_row data row) fout') tensor_data_offset data
               bytes_per_row offset_current_col rows)"

text \<open>Lines 183-202: where this shard's bytes go.\<close>

definition write_data ::
  "(np_dtype \<Rightarrow> 'e \<Rightarrow> byte list) \<Rightarrow> outfile \<Rightarrow> int \<Rightarrow> 'e ndarray \<Rightarrow> int list \<Rightarrow> int \<Rightarrow> int
     \<Rightarrow> int \<Rightarrow> int \<Rightarrow> int \<Rightarrow> int \<Rightarrow> error + outfile" where
  "write_data enc fout tensor_data_offset data partshape n_dims split_dim blck_size type_size
     part_id n_parts =
     (if n_dims = 1 \<or> n_parts = 1 then
        (if part_id = 0 then Inr (tofile enc data fout) else Inr fout)
      else if split_dim = 0 then
        (let rows_per_chunk = partshape ! 0;
             current_row = part_id * rows_per_chunk;
             bytes_per_row = partshape ! 1 div blck_size * type_size;
             offset = current_row * bytes_per_row
         in case fout_seek fout (tensor_data_offset + offset) of
              Inl e \<Rightarrow> Inl e
            | Inr fout' \<Rightarrow> Inr (tofile enc data fout'))
      else if split_dim = 1 then
        (let cols_per_chunk = partshape ! 1;
             current_col = part_id * cols_per_chunk;
             bytes_per_row = partshape ! 1 div blck_size * type_size;
             offset_current_col = current_col div blck_size * type_size
         in write_rows enc fout tensor_data_offset data bytes_per_row offset_current_col
              [0..<nat (partshape ! 0)])
      else Inr fout)"

text \<open>The body of the loop of \<^verbatim>\<open>process_and_write_variables\<close>, for one item.\<close>

definition write_variable ::
  "endian \<Rightarrow> (np_dtype \<Rightarrow> 'e \<Rightarrow> byte list) \<Rightarrow> outfile \<Rightarrow> pystr \<times> 'e ndarray \<Rightarrow> int \<Rightarrow> int
     \<Rightarrow> int \<Rightarrow> error + outfile" where
  "write_variable bo enc fout item ftype part_id n_parts =
     (let name = fst item; datao = snd item in
      if suffix (py_str ''freqs'') name then Inr fout
      else
        (let data = squeeze datao;
             partshape = map int (arr_shape data);
             n_dims = int (length (arr_shape data))
         in if n_dims \<noteq> 1 \<and> n_dims \<noteq> 2 then Inl AssertionError
            else
              (let ftype_cur = fst (convert_data ftype n_dims data);
                   data = snd (convert_data ftype n_dims data)
               in case WTYPES ftype_cur of
                    Inl e \<Rightarrow> Inl e
                  | Inr t \<Rightarrow>
                      (let blck_size = GGML_BLCK_SIZE t;
                           type_size = GGML_TYPE_SIZE t;
                           split_dim = split_dim_of name
                       in case begin_record bo fout name n_dims ftype_cur partshape of
                            Inl e \<Rightarrow> Inl e
                          | Inr (fout1, tensor_data_offset) \<Rightarrow>
                              (case write_data enc fout1 tensor_data_offset data partshape
                                      n_dims split_dim blck_size type_size part_id n_parts of
                                 Inl e \<Rightarrow> Inl e
                               | Inr fout2 \<Rightarrow>
                                   (case ggml_nbytes partshape ftype_cur of
                                      Inl e \<Rightarrow> Inl e
                                    | Inr nbytes \<Rightarrow>
                                        fout_seek fout2 (tensor_data_offset + nbytes)))))))"

fun process_and_write_variables ::
  "endian \<Rightarrow> (np_dtype \<Rightarrow> 'e \<Rightarrow> byte list) \<Rightarrow> outfile \<Rightarrow> 'e model \<Rightarrow> int \<Rightarrow> int \<Rightarrow> int
     \<Rightarrow> error + outfile" where
  "process_and_write_variables bo enc fout [] ftype part_id n_parts = Inr fout"
| "process_and_write_variables bo enc fout (item # items) ftype part_id n_parts =
     (case write_variable bo enc fout item ftype part_id n_parts of
        Inl e \<Rightarrow> Inl e
      | Inr fout' \<Rightarrow> process_and_write_variables bo enc fout' items ftype part_id n_parts)"

subsection \<open>The run\<close>

text \<open>
  The command line after \<^verbatim>\<open>parse_args\<close>; \<^verbatim>\<open>argparse\<close> exits with status 2 on a
  selector outside \<^verbatim>\<open>choices\<close>.
\<close>

record args =
  arg_ftype :: int
  arg_vocab_only :: bool

text \<open>
  How a run ends: normally with the output file, or by an error before the output file
  is opened, or by an error inside the \<^verbatim>\<open>with open\<close> block, which leaves an incomplete
  output file behind.
\<close>

datatype run_result =
    Done outfile
  | FailedBeforeOpen error
  | FailedWhileWriting error

text \<open>
  The loop over the parts. \<open>models\<close> holds what \<^verbatim>\<open>torch.load\<close> returns for each
  \<^verbatim>\<open>consolidated.0k.pth\<close>; a missing file raises.
\<close>

fun process_parts ::
  "endian \<Rightarrow> (np_dtype \<Rightarrow> 'e \<Rightarrow> byte list) \<Rightarrow> outfile \<Rightarrow> int \<Rightarrow> 'e model list \<Rightarrow> int \<Rightarrow> int
     \<Rightarrow> nat list \<Rightarrow> error + outfile" where
  "process_parts bo enc fout offset_of_tensors models ftype n_parts [] = Inr fout"
| "process_parts bo enc fout offset_of_tensors models ftype n_parts (part_id # part_ids) =
     (case fout_seek fout offset_of_tensors of
        Inl e \<Rightarrow> Inl e
      | Inr fout1 \<Rightarrow>
          (if length models \<le> part_id then Inl FileNotFoundError
           else
             (case process_and_write_variables bo enc fout1 (models ! part_id) ftype
                     (int part_id) n_parts of
                Inl e \<Rightarrow> Inl e
              | Inr fout2 \<Rightarrow>
                  process_parts bo enc fout2 offset_of_tensors models ftype n_parts part_ids)))"

definition write_header_and_tokens ::
  "endian \<Rightarrow> (pystr \<Rightarrow> error + int) \<Rightarrow> hparams \<Rightarrow> tokenizer \<Rightarrow> int \<Rightarrow> error + outfile" where
  "write_header_and_tokens bo int_other hp tok ftype =
     (case write_header bo fopen_wb hp ftype of
        Inl e \<Rightarrow> Inl e
      | Inr fout \<Rightarrow> write_tokens bo int_other fout tok)"

definition main ::
  "endian \<Rightarrow> (np_dtype \<Rightarrow> 'e \<Rightarrow> byte list) \<Rightarrow> (pystr \<Rightarrow> error + int) \<Rightarrow> args \<Rightarrow> hparams
     \<Rightarrow> tokenizer \<Rightarrow> 'e model list \<Rightarrow> run_result" where
  "main bo enc int_other a json tok0 models =
     (if arg_ftype a \<noteq> 0 \<and> arg_ftype a \<noteq> 1 \<and> arg_ftype a \<noteq> 2 then FailedBeforeOpen (SysExit 2)
      else
        (let hp = fst (load_hparams_and_tokenizer json tok0);
             tok = snd (load_hparams_and_tokenizer json tok0)
         in if arg_vocab_only a then
              (case write_header_and_tokens bo int_other hp tok (arg_ftype a) of
                 Inl e \<Rightarrow> FailedWhileWriting e
               | Inr fout \<Rightarrow> Done fout)
            else
              (case hget hp ''dim'' of
                 Inl e \<Rightarrow> FailedBeforeOpen e
               | Inr dim \<Rightarrow>
                   (case get_n_parts dim of
                      Inl e \<Rightarrow> FailedBeforeOpen e
                    | Inr n_parts \<Rightarrow>
                        (case write_header_and_tokens bo int_other hp tok (arg_ftype a) of
                           Inl e \<Rightarrow> FailedWhileWriting e
                         | Inr fout \<Rightarrow>
                             (case process_parts bo enc fout (fout_tell fout) models (arg_ftype a)
                                     n_parts [0..<nat n_parts] of
                                Inl e \<Rightarrow> FailedWhileWriting e
                              | Inr fout' \<Rightarrow> Done fout'))))))"

section \<open>Properties\<close>

subsection \<open>Size arithmetic\<close>

lemma fold_mult_acc: "fold (\<lambda>i r. r * i) shape (a::int) = a * prod_list shape"
  by (induction shape arbitrary: a) (simp_all add: mult.assoc)

lemma ggml_nelements_prod_list: "ggml_nelements shape = prod_list shape"
  by (simp add: ggml_nelements_def fold_mult_acc)

lemma WTYPES_cases:
  "WTYPES ftype = Inr t \<Longrightarrow>
     (ftype = 0 \<and> t = GGML_TYPE_F32) \<or> (ftype = 1 \<and> t = GGML_TYPE_F16) \<or>
     (ftype = 2 \<and> t = GGML_TYPE_Q4_0) \<or> (ftype = 3 \<and> t = GGML_TYPE_Q4_1)"
  by (auto simp: WTYPES_def split: if_splits)

text \<open>
  C6. For a selector with an entry in the registry and a shape whose element count is a
  multiple of the encoding's block width, \<open>ggml_nbytes\<close> returns
  \<open>element_count * bytes_per_block / block_width\<close>, the division leaves no remainder,
  and the block width is 1 for F32 and F16 and 32 for Q4\_0 and Q4\_1.
\<close>

theorem ggml_nbytes_exact:
  assumes "WTYPES ftype = Inr t"
    and "GGML_BLCK_SIZE t dvd ggml_nelements shape"
  shows "ggml_nbytes shape ftype
           = Inr (ggml_nelements shape * GGML_TYPE_SIZE t div GGML_BLCK_SIZE t)
       \<and> (ggml_nelements shape * GGML_TYPE_SIZE t) mod GGML_BLCK_SIZE t = 0
       \<and> (ggml_nelements shape * GGML_TYPE_SIZE t div GGML_BLCK_SIZE t) * GGML_BLCK_SIZE t
           = ggml_nelements shape * GGML_TYPE_SIZE t
       \<and> GGML_BLCK_SIZE GGML_TYPE_F32 = 1 \<and> GGML_BLCK_SIZE GGML_TYPE_F16 = 1
       \<and> GGML_BLCK_SIZE GGML_TYPE_Q4_0 = 32 \<and> GGML_BLCK_SIZE GGML_TYPE_Q4_1 = 32"
proof -
  have d: "GGML_BLCK_SIZE t dvd ggml_nelements shape * GGML_TYPE_SIZE t"
    using assms(2) by (rule dvd_mult2)
  have "ggml_nbytes shape ftype
          = Inr (ggml_nelements shape * GGML_TYPE_SIZE t div GGML_BLCK_SIZE t)"
    using assms(1) by (simp add: ggml_nbytes_def Let_def)
  moreover have "(ggml_nelements shape * GGML_TYPE_SIZE t) mod GGML_BLCK_SIZE t = 0"
    using d by (simp add: mod_eq_0_iff_dvd)
  moreover have "(ggml_nelements shape * GGML_TYPE_SIZE t div GGML_BLCK_SIZE t)
                   * GGML_BLCK_SIZE t = ggml_nelements shape * GGML_TYPE_SIZE t"
    using d by simp
  ultimately show ?thesis by (simp add: QK_def)
qed

theorem ggml_nbytes_exact_witness:
  "WTYPES 2 = Inr GGML_TYPE_Q4_0
   \<and> GGML_BLCK_SIZE GGML_TYPE_Q4_0 dvd ggml_nelements [4, 64]
   \<and> ggml_nbytes [4, 64] 2 = Inr 160
   \<and> (ggml_nelements [4, 64] * GGML_TYPE_SIZE GGML_TYPE_Q4_0) mod 32 = 0"
proof -
  have w: "WTYPES 2 = Inr GGML_TYPE_Q4_0" by (simp add: WTYPES_def)
  have d: "GGML_BLCK_SIZE GGML_TYPE_Q4_0 dvd ggml_nelements [4, 64]"
    by (simp add: ggml_nelements_def QK_def)
  show ?thesis
    using w d ggml_nbytes_exact [OF w d] by (simp add: ggml_nelements_def QK_def)
qed

subsection \<open>Writing to the file\<close>

lemma cursor_fout_write: "cursor (fout_write f bs) = cursor f + length bs"
  by (simp add: fout_write_def)

lemma fsize_fout_write:
  "fsize (fout_write f bs) = (if bs = [] then fsize f else max (fsize f) (cursor f + length bs))"
  by (simp add: fout_write_def)

lemma bytes_at_fout_write:
  "bytes_at (fout_write f bs) i =
     (if cursor f \<le> i \<and> i < cursor f + length bs then bs ! (i - cursor f)
      else if bs \<noteq> [] \<and> fsize f \<le> i then 0
      else bytes_at f i)"
  by (cases "bs = []") (auto simp: fout_write_def)

lemma outfile_eqI:
  "(\<And>i. bytes_at f i = bytes_at g i) \<Longrightarrow> fsize f = fsize g \<Longrightarrow> cursor f = cursor g
     \<Longrightarrow> (f::outfile) = g"
  by (cases f, cases g) auto

lemma fout_write_append: "fout_write (fout_write f a) b = fout_write f (a @ b)"
proof (cases "a = [] \<or> b = []")
  case True
  then show ?thesis by (auto simp: fout_write_def)
next
  case False
  then have ne: "a \<noteq> []" "b \<noteq> []" by simp_all
  show ?thesis
  proof (rule outfile_eqI)
    fix i
    consider "i < cursor f" | "cursor f \<le> i" "i < cursor f + length a"
      | "cursor f + length a \<le> i" "i < cursor f + length a + length b"
      | "cursor f + length a + length b \<le> i"
      by linarith
    then show "bytes_at (fout_write (fout_write f a) b) i = bytes_at (fout_write f (a @ b)) i"
    proof cases
      case 1
      then show ?thesis
        using ne by (simp add: bytes_at_fout_write cursor_fout_write fsize_fout_write)
    next
      case 2
      then have "i - cursor f < length a" by linarith
      then show ?thesis
        using ne 2 by (simp add: bytes_at_fout_write cursor_fout_write fsize_fout_write nth_append)
    next
      case 3
      then have "\<not> i - cursor f < length a" by linarith
      moreover have "i - (cursor f + length a) = i - cursor f - length a" by simp
      ultimately show ?thesis
        using ne 3 by (simp add: bytes_at_fout_write cursor_fout_write fsize_fout_write nth_append)
    next
      case 4
      then show ?thesis
        using ne by (simp add: bytes_at_fout_write cursor_fout_write fsize_fout_write)
    qed
  next
    show "fsize (fout_write (fout_write f a) b) = fsize (fout_write f (a @ b))"
      using ne by (simp add: cursor_fout_write fsize_fout_write)
  next
    show "cursor (fout_write (fout_write f a) b) = cursor (fout_write f (a @ b))"
      by (simp add: cursor_fout_write)
  qed
qed

lemma file_bytes_fout_write_at_end:
  assumes "cursor f = fsize f"
  shows "file_bytes (fout_write f bs) = file_bytes f @ bs"
proof (cases "bs = []")
  case True
  then show ?thesis by (simp add: fout_write_def)
next
  case False
  have sz: "fsize (fout_write f bs) = fsize f + length bs"
    using False assms by (simp add: fsize_fout_write)
  have split: "[0..<fsize f + length bs] = [0..<fsize f] @ [fsize f..<fsize f + length bs]"
    by (rule upt_add_eq_append) simp
  have low: "map (bytes_at (fout_write f bs)) [0..<fsize f] = map (bytes_at f) [0..<fsize f]"
    using assms by (simp add: bytes_at_fout_write)
  have high: "map (bytes_at (fout_write f bs)) [fsize f..<fsize f + length bs] = bs"
    using assms by (intro nth_equalityI) (simp_all add: bytes_at_fout_write)
  show ?thesis
    unfolding file_bytes_def sz split map_append low high ..
qed

subsection \<open>Packed integers\<close>

lemma le_bytes_4:
  "le_bytes 4 v = [word_of_int v, word_of_int (v div 256), word_of_int (v div 65536),
                   word_of_int (v div 16777216)]"
proof -
  have "[0..<4] = [0, 1, 2, 3::nat]"
    by (simp add: upt_rec)
  then show ?thesis
    by (simp add: le_bytes_def)
qed

lemma length_le_bytes: "length (le_bytes n v) = n"
  by (simp add: le_bytes_def)

lemma length_native: "length (native bo bs) = length bs"
  by (cases bo) (simp_all add: native_def)

lemma native_native: "native bo (native bo bs) = bs"
  by (cases bo) (simp_all add: native_def)

lemma uint_byte_of_int: "uint (word_of_int x :: byte) = x mod 256"
  by (simp add: uint_word_of_int)

lemma horner_le_bytes_4: "horner_sum uint 256 (le_bytes 4 v) = v mod 2 ^ 32"
proof -
  have a: "v mod 4294967296 = 256 * (v div 256 mod 16777216) + v mod 256"
    using zmod_zmult2_eq [of 16777216 v 256] by simp
  have b: "v div 256 mod 16777216 = 256 * (v div 256 div 256 mod 65536) + v div 256 mod 256"
    using zmod_zmult2_eq [of 65536 "v div 256" 256] by simp
  have c: "v div 256 div 256 mod 65536
             = 256 * (v div 256 div 256 div 256 mod 256) + v div 256 div 256 mod 256"
    using zmod_zmult2_eq [of 256 "v div 256 div 256" 256] by simp
  have d1: "v div 65536 = v div 256 div 256"
    using zdiv_zmult2_eq [where a = v and b = 256 and c = 256] by simp
  have d2: "v div 16777216 = v div 256 div 256 div 256"
    using zdiv_zmult2_eq [where a = v and b = 65536 and c = 256] d1 by simp
  show ?thesis
    unfolding le_bytes_4
    by (simp add: uint_byte_of_int a b c d1 d2)
qed

lemma unpack_i_pack:
  assumes "- (2 ^ 31) \<le> v" "v < 2 ^ 31"
  shows "unpack_i bo (native bo (le_bytes 4 v)) = v"
proof -
  have "unpack_i bo (native bo (le_bytes 4 v)) = sint (word_of_int (v mod 2 ^ 32) :: 32 word)"
    by (simp only: unpack_i_def native_native horner_le_bytes_4)
  also have "(word_of_int (v mod 2 ^ 32) :: 32 word) = word_of_int v"
    by (simp add: word_of_int_eq_iff take_bit_eq_mod)
  also have "sint (word_of_int v :: 32 word) = v"
    using assms by (simp add: sint_sbintrunc' signed_take_bit_int_eq_self)
  finally show ?thesis .
qed

lemma pack_i_int32: "int32 v \<Longrightarrow> pack_i bo v = Inr (native bo (le_bytes 4 v))"
  by (simp add: pack_i_def int32_def)

lemma pack_i_Inr_iff: "pack_i bo v = Inr b \<longleftrightarrow> int32 v \<and> b = native bo (le_bytes 4 v)"
  by (auto simp: pack_i_def int32_def)

lemma length_pack_i: "pack_i bo v = Inr b \<Longrightarrow> length b = 4"
  by (auto simp: pack_i_Inr_iff length_native length_le_bytes)

lemma pack_is_int32:
  "list_all int32 vs \<Longrightarrow> pack_is bo vs = Inr (concat (map (\<lambda>v. native bo (le_bytes 4 v)) vs))"
  by (induction vs) (simp_all add: pack_i_int32)

lemma pack_is_Inr_D:
  "pack_is bo vs = Inr bs \<Longrightarrow>
     list_all int32 vs \<and> bs = concat (map (\<lambda>v. native bo (le_bytes 4 v)) vs)"
proof (induction vs arbitrary: bs)
  case Nil
  then show ?case by simp
next
  case (Cons v vs)
  then show ?case
    by (auto simp: pack_i_Inr_iff split: sum.splits)
qed

lemma unpack_is_packed:
  "list_all int32 vs \<Longrightarrow>
     unpack_is bo (length vs) (concat (map (\<lambda>v. native bo (le_bytes 4 v)) vs) @ rest) = vs"
proof (induction vs)
  case Nil
  then show ?case by simp
next
  case (Cons v vs)
  have l: "length (native bo (le_bytes 4 v)) = 4"
    by (simp add: length_native length_le_bytes)
  from Cons show ?case
    by (simp add: l unpack_i_pack int32_def)
qed

lemma length_packed:
  "length (concat (map (\<lambda>v. native bo (le_bytes 4 v)) vs)) = 4 * length vs"
  by (induction vs) (simp_all add: length_native length_le_bytes)

lemma hget_Some: "hp key = Some v \<Longrightarrow> hget hp key = Inr v"
  by (simp add: hget_def)

lemma header_values_ok:
  assumes "hp ''vocab_size'' = Some nv" and "hp ''dim'' = Some d"
    and "hp ''multiple_of'' = Some m" and "hp ''n_heads'' = Some h"
    and "hp ''n_layers'' = Some l" and "h \<noteq> 0"
  shows "header_values hp ftype = Inr [0x67676a74, 1, nv, d, m, h, l, d div h, ftype]"
  using assms by (simp add: header_values_def header_keys_def hget_Some py_floordiv_def)

subsection \<open>Header\<close>

lemma write_header_succeeds:
  assumes "hp ''vocab_size'' = Some nv" and "hp ''dim'' = Some d"
    and "hp ''multiple_of'' = Some m" and "hp ''n_heads'' = Some h"
    and "hp ''n_layers'' = Some l" and "h \<noteq> 0"
    and "list_all int32 [nv, d, m, h, l, d div h, ftype]"
  shows "\<exists>bs. write_header bo fout hp ftype = Inr (fout_write fout bs) \<and> length bs = 36"
proof -
  let ?vs = "[0x67676a74, 1, nv, d, m, h, l, d div h, ftype]"
  let ?bs = "concat (map (\<lambda>v. native bo (le_bytes 4 v)) ?vs)"
  have r: "list_all int32 ?vs"
    using assms(7) by (simp add: int32_def)
  have v: "header_values hp ftype = Inr ?vs"
    using assms(1-6) by (rule header_values_ok)
  have w: "write_header bo fout hp ftype = Inr (fout_write fout ?bs)"
    by (simp only: write_header_def v pack_is_int32 [OF r] sum.case)
  have n: "length ?bs = 36"
    by (simp only: length_packed) simp
  show ?thesis
    using w n by (intro exI [of _ ?bs] conjI)
qed


text \<open>
  C3 (as amended). When the five keys are present, the head count is not zero and every
  value fits the format, \<open>write_header\<close> writes 36 bytes: nine 4-byte native integers,
  in the order magic, version 1, \<open>vocab_size\<close>, \<open>dim\<close>, \<open>multiple_of\<close>, \<open>n_heads\<close>,
  \<open>n_layers\<close>, \<open>dim\<close> divided by \<open>n_heads\<close> (rounded down), and the encoding selector.
\<close>

theorem write_header_layout:
  assumes "hp ''vocab_size'' = Some nv" and "hp ''dim'' = Some d"
    and "hp ''multiple_of'' = Some m" and "hp ''n_heads'' = Some h"
    and "hp ''n_layers'' = Some l" and "h \<noteq> 0"
    and "list_all int32 [nv, d, m, h, l, d div h, ftype]"
  shows "\<exists>bs. write_header bo fout hp ftype = Inr (fout_write fout bs)
           \<and> length bs = 4 * 9
           \<and> bs = concat (map (\<lambda>v. native bo (le_bytes 4 v))
                    [0x67676a74, 1, nv, d, m, h, l, d div h, ftype])
           \<and> unpack_is bo 9 bs = [0x67676a74, 1, nv, d, m, h, l, d div h, ftype]"
proof -
  let ?vs = "[0x67676a74, 1, nv, d, m, h, l, d div h, ftype]"
  let ?bs = "concat (map (\<lambda>v. native bo (le_bytes 4 v)) ?vs)"
  have r: "list_all int32 ?vs"
    using assms(7) by (simp add: int32_def)
  have v: "header_values hp ftype = Inr ?vs"
    using assms(1-6) by (rule header_values_ok)
  have w: "write_header bo fout hp ftype = Inr (fout_write fout ?bs)"
    by (simp only: write_header_def v pack_is_int32 [OF r] sum.case)
  have n: "length ?bs = 4 * 9"
    by (simp only: length_packed) simp
  have len: "length ?vs = 9"
    by simp
  have "unpack_is bo (length ?vs) (?bs @ []) = ?vs"
    using r by (rule unpack_is_packed)
  then have u: "unpack_is bo 9 ?bs = ?vs"
    unfolding len append_Nil2 .
  show ?thesis
    using w n u by (intro exI [of _ ?bs] conjI refl)
qed

theorem write_header_layout_witness:
  "\<exists>bs. write_header LittleEndian fopen_wb
           [''vocab_size'' \<mapsto> 3, ''dim'' \<mapsto> 4096, ''multiple_of'' \<mapsto> 256, ''n_heads'' \<mapsto> 32,
            ''n_layers'' \<mapsto> 1] 1 = Inr (fout_write fopen_wb bs)
         \<and> length bs = 36
         \<and> unpack_is LittleEndian 9 bs = [0x67676a74, 1, 3, 4096, 256, 32, 1, 128, 1]"
proof -
  let ?hp = "[''vocab_size'' \<mapsto> 3, ''dim'' \<mapsto> 4096, ''multiple_of'' \<mapsto> 256,
              ''n_heads'' \<mapsto> 32, ''n_layers'' \<mapsto> (1::int)]"
  have "\<exists>bs. write_header LittleEndian fopen_wb ?hp 1 = Inr (fout_write fopen_wb bs)
           \<and> length bs = 4 * 9
           \<and> bs = concat (map (\<lambda>v. native LittleEndian (le_bytes 4 v))
                    [0x67676a74, 1, 3, 4096, 256, 32, 1, 4096 div 32, 1])
           \<and> unpack_is LittleEndian 9 bs
               = [0x67676a74, 1, 3, 4096, 256, 32, 1, 4096 div 32, 1]"
    by (rule write_header_layout) (simp_all add: int32_def)
  then obtain bs where
    "write_header LittleEndian fopen_wb ?hp 1 = Inr (fout_write fopen_wb bs)"
    "length bs = 4 * 9"
    "unpack_is LittleEndian 9 bs = [0x67676a74, 1, 3, 4096, 256, 32, 1, 4096 div 32, 1]"
    by blast
  then have "write_header LittleEndian fopen_wb ?hp 1 = Inr (fout_write fopen_wb bs)
      \<and> length bs = 36
      \<and> unpack_is LittleEndian 9 bs = [0x67676a74, 1, 3, 4096, 256, 32, 1, 128, 1]"
    by simp
  then show ?thesis ..
qed

text \<open>
  C3 as the specification's file layout has it (embedding dimension third, vocabulary
  size seventh) does not hold: with a vocabulary of 3 and an embedding dimension of 4096
  the third integer of the header is 3 and the fourth is 4096.
\<close>

theorem write_header_order_counterexample:
  "header_values
     [''vocab_size'' \<mapsto> 3, ''dim'' \<mapsto> 4096, ''multiple_of'' \<mapsto> 256, ''n_heads'' \<mapsto> 32,
      ''n_layers'' \<mapsto> 1] 1
     = Inr [0x67676a74, 1, 3, 4096, 256, 32, 1, 128, 1]
   \<and> header_values
     [''vocab_size'' \<mapsto> 3, ''dim'' \<mapsto> 4096, ''multiple_of'' \<mapsto> 256, ''n_heads'' \<mapsto> 32,
      ''n_layers'' \<mapsto> 1] 1
     \<noteq> Inr [0x67676a74, 1, 4096, 256, 32, 1, 3, 128, 1]
   \<and> write_header LittleEndian fopen_wb
     [''vocab_size'' \<mapsto> 3, ''dim'' \<mapsto> 4096, ''multiple_of'' \<mapsto> 256, ''n_heads'' \<mapsto> 32,
      ''n_layers'' \<mapsto> 1] 1
     = Inr (fout_write fopen_wb
         [0x74, 0x6a, 0x67, 0x67,  1, 0, 0, 0,  3, 0, 0, 0,  0, 0x10, 0, 0,  0, 1, 0, 0,
          0x20, 0, 0, 0,  1, 0, 0, 0,  0x80, 0, 0, 0,  1, 0, 0, 0])"
proof -
  let ?hp = "[''vocab_size'' \<mapsto> 3, ''dim'' \<mapsto> 4096, ''multiple_of'' \<mapsto> 256,
              ''n_heads'' \<mapsto> 32, ''n_layers'' \<mapsto> (1::int)]"
  have v: "header_values ?hp 1 = Inr [0x67676a74, 1, 3, 4096, 256, 32, 1, 128, 1]"
    by (simp add: header_values_def header_keys_def hget_def py_floordiv_def)
  have p: "pack_is LittleEndian [0x67676a74, 1, 3, 4096, 256, 32, 1, 128, 1]
      = Inr [0x74, 0x6a, 0x67, 0x67,  1, 0, 0, 0,  3, 0, 0, 0,  0, 0x10, 0, 0,  0, 1, 0, 0,
          0x20, 0, 0, 0,  1, 0, 0, 0,  0x80, 0, 0, 0,  1, 0, 0, 0]"
    by (simp add: pack_i_def native_def le_bytes_4)
  have w: "write_header LittleEndian fopen_wb ?hp 1
      = Inr (fout_write fopen_wb
         [0x74, 0x6a, 0x67, 0x67,  1, 0, 0, 0,  3, 0, 0, 0,  0, 0x10, 0, 0,  0, 1, 0, 0,
          0x20, 0, 0, 0,  1, 0, 0, 0,  0x80, 0, 0, 0,  1, 0, 0, 0])"
    by (simp only: write_header_def v p sum.case)
  have n: "header_values ?hp 1 \<noteq> Inr [0x67676a74, 1, 4096, 256, 32, 1, 3, 128, 1]"
    unfolding v by simp
  from v n w show ?thesis by blast
qed

subsection \<open>Shard count\<close>

lemma get_n_parts_unknown:
  "dim \<noteq> 4096 \<Longrightarrow> dim \<noteq> 5120 \<Longrightarrow> dim \<noteq> 6656 \<Longrightarrow> dim \<noteq> 8192
     \<Longrightarrow> get_n_parts dim = Inl (SysExit 1)"
  by (simp add: get_n_parts_def)

lemma hget_loaded_dim:
  "hget (fst (load_hparams_and_tokenizer json tok)) ''dim'' = hget json ''dim''"
  by (simp add: load_hparams_and_tokenizer_def hget_def)

text \<open>
  C8. The lookup gives 1, 2, 4 and 8 shards for the embedding dimensions 4096, 5120,
  6656 and 8192 and exits with status 1 on every other one; a full conversion whose
  embedding dimension is not one of the four ends with that exit before the output file
  is opened, so nothing is written.
\<close>

theorem get_n_parts_lookup:
  "get_n_parts 4096 = Inr 1 \<and> get_n_parts 5120 = Inr 2
   \<and> get_n_parts 6656 = Inr 4 \<and> get_n_parts 8192 = Inr 8
   \<and> (dim \<notin> {4096, 5120, 6656, 8192} \<longrightarrow> get_n_parts dim = Inl (SysExit 1))
   \<and> (dim \<notin> {4096, 5120, 6656, 8192} \<and> json ''dim'' = Some dim \<and> \<not> arg_vocab_only a
        \<and> arg_ftype a \<in> {0, 1, 2}
        \<longrightarrow> main bo enc int_other a json tok models = FailedBeforeOpen (SysExit 1))"
proof -
  have known: "get_n_parts 4096 = Inr 1 \<and> get_n_parts 5120 = Inr 2
      \<and> get_n_parts 6656 = Inr 4 \<and> get_n_parts 8192 = Inr 8"
    by (simp add: get_n_parts_def)
  have other: "get_n_parts dim = Inl (SysExit 1)" if "dim \<notin> {4096, 5120, 6656, 8192}"
    using that by (simp add: get_n_parts_unknown)
  have run: "main bo enc int_other a json tok models = FailedBeforeOpen (SysExit 1)"
    if "dim \<notin> {4096, 5120, 6656, 8192}" and "json ''dim'' = Some dim"
      and "\<not> arg_vocab_only a" and "arg_ftype a \<in> {0, 1, 2}"
  proof -
    have f: "\<not> (arg_ftype a \<noteq> 0 \<and> arg_ftype a \<noteq> 1 \<and> arg_ftype a \<noteq> 2)"
      using that(4) by auto
    have "hget json ''dim'' = Inr dim"
      using that(2) by (simp add: hget_def)
    then have d: "hget (fst (load_hparams_and_tokenizer json tok)) ''dim'' = Inr dim"
      by (simp only: hget_loaded_dim)
    show ?thesis
      by (simp only: main_def f that(3) d other [OF that(1)] Let_def if_False sum.case)
  qed
  from known other run show ?thesis
    by (intro conjI impI) simp_all
qed

theorem get_n_parts_lookup_witness:
  "(4097::int) \<notin> {4096, 5120, 6656, 8192}
   \<and> get_n_parts 4097 = Inl (SysExit 1)
   \<and> main LittleEndian (\<lambda>dt (e::nat). []) (\<lambda>s. Inl ValueError)
        \<lparr>arg_ftype = 1, arg_vocab_only = False\<rparr> [''dim'' \<mapsto> 4097]
        \<lparr>vocab_size = 0, is_unknown = (\<lambda>i. False), is_control = (\<lambda>i. False),
         is_byte = (\<lambda>i. False), id_to_piece = (\<lambda>i. []), get_score = (\<lambda>i. 0)\<rparr> []
       = FailedBeforeOpen (SysExit 1)"
  using get_n_parts_lookup [of 4097 "[''dim'' \<mapsto> 4097]"
      "\<lparr>arg_ftype = 1, arg_vocab_only = False\<rparr>" LittleEndian "\<lambda>dt (e::nat). []"
      "\<lambda>s. Inl ValueError"
      "\<lparr>vocab_size = 0, is_unknown = (\<lambda>i. False), is_control = (\<lambda>i. False),
         is_byte = (\<lambda>i. False), id_to_piece = (\<lambda>i. []), get_score = (\<lambda>i. 0)\<rparr>" "[]"]
  by simp

subsection \<open>Partition axis\<close>

lemma py_str_simps:
  "py_str [] = []" "py_str (c # cs) = of_char c # py_str cs"
  by (simp_all add: py_str_def)

text \<open>
  C9. The axis \<open>split_dim_of\<close> computes from a name is the one the priority table
  gives: 1 for a name with the embedding-table marker; otherwise, for a name with the
  per-layer marker, 1 if it has the attention-output or the feed-forward second
  projection marker and 0 if not; otherwise 0 for a name with the final-output marker;
  and 1 for every other name.
\<close>

theorem split_dim_of_priority:
  "split_dim_of name = spec_split_axis name
   \<and> (split_dim_of name = 0 \<or> split_dim_of name = 1)
   \<and> (sublist (py_str ''tok_embeddings'') name \<longrightarrow> split_dim_of name = 1)
   \<and> (\<not> sublist (py_str ''tok_embeddings'') name \<and> sublist (py_str ''layers'') name
        \<longrightarrow> split_dim_of name =
             (if sublist (py_str ''attention.wo.weight'') name
                 \<or> sublist (py_str ''feed_forward.w2.weight'') name then 1 else 0))
   \<and> (\<not> sublist (py_str ''tok_embeddings'') name \<and> \<not> sublist (py_str ''layers'') name
        \<and> sublist (py_str ''output'') name \<longrightarrow> split_dim_of name = 0)
   \<and> (\<not> sublist (py_str ''tok_embeddings'') name \<and> \<not> sublist (py_str ''layers'') name
        \<and> \<not> sublist (py_str ''output'') name \<longrightarrow> split_dim_of name = 1)"
proof -
  have t: "split_dim_of name = spec_split_axis name"
    by (simp add: split_dim_of_def spec_split_axis_def spec_axis_table_def)
  show ?thesis
    unfolding t [symmetric] by (simp add: split_dim_of_def)
qed

theorem split_dim_of_priority_witness:
  "\<not> sublist (py_str ''tok_embeddings'') (py_str ''layers.0.attention.wq.weight'')
   \<and> sublist (py_str ''layers'') (py_str ''layers.0.attention.wq.weight'')
   \<and> \<not> sublist (py_str ''attention.wo.weight'') (py_str ''layers.0.attention.wq.weight'')
   \<and> split_dim_of (py_str ''layers.0.attention.wq.weight'') = 0
   \<and> spec_split_axis (py_str ''layers.0.attention.wq.weight'') = 0"
  using split_dim_of_priority [of "py_str ''layers.0.attention.wq.weight''"]
  by (simp add: py_str_simps sublist_Cons_right)

lemma split_dim_examples:
  "split_dim_of (py_str ''tok_embeddings.weight'') = 1"
  "split_dim_of (py_str ''layers.0.attention.wo.weight'') = 1"
  "split_dim_of (py_str ''layers.0.feed_forward.w2.weight'') = 1"
  "split_dim_of (py_str ''layers.0.attention.wq.weight'') = 0"
  "split_dim_of (py_str ''output.weight'') = 0"
  "split_dim_of (py_str ''norm.weight'') = 1"
  by (simp_all add: split_dim_of_def py_str_simps sublist_Cons_right)

subsection \<open>Vocabulary\<close>

lemma encode_placeholder: "encode [0x20, 0x2047, 0x20] = Inr [0x20, 0xE2, 0x81, 0x87, 0x20]"
  by (simp add: utf8_char_def)

lemma hex_digit_less: "hex_digit c = Some d \<Longrightarrow> d < 16"
  by (auto simp: hex_digit_def split: if_splits)

lemma slice_3_minus1:
  assumes "length piece = 6"
  shows "drop 3 (butlast piece) = [piece ! 3, piece ! 4]"
proof -
  obtain a b c d e f where p: "piece = [a, b, c, d, e, f]"
    using assms by (auto simp: length_Suc_conv eval_nat_numeral)
  show ?thesis
    by (simp add: p)
qed

lemma token_text_byte:
  assumes "\<not> is_unknown tok i" and "\<not> is_control tok i" and "is_byte tok i"
    and "length (id_to_piece tok i) = 6"
    and "hex_digit (id_to_piece tok i ! 3) = Some a"
    and "hex_digit (id_to_piece tok i ! 4) = Some b"
  shows "token_text int_other tok i = Inr [of_nat (16 * a + b)]"
proof -
  have s: "drop 3 (butlast (id_to_piece tok i)) = [id_to_piece tok i ! 3, id_to_piece tok i ! 4]"
    using assms(4) by (rule slice_3_minus1)
  have v: "int_base16 int_other [id_to_piece tok i ! 3, id_to_piece tok i ! 4]
             = Inr (int (16 * a + b))"
    using assms(5,6) by (simp add: int_base16_def)
  have "a < 16" "b < 16"
    using assms(5,6) by (auto dest: hex_digit_less)
  then have p: "pack_B (int (16 * a + b)) = Inr [of_nat (16 * a + b)]"
    by (simp add: pack_B_def)
  show ?thesis
    using assms(1-4) by (simp add: token_text_def Let_def s v p del: of_nat_add of_nat_mult)
qed

lemma write_token_record:
  "write_token bo int_other fout tok i =
     (case token_record bo int_other tok i of
        Inl e \<Rightarrow> Inl e
      | Inr r \<Rightarrow> Inr (fout_write fout r))"
  by (simp add: write_token_def token_record_def fout_write_append split: sum.splits)

lemma write_tokens_loop_fails:
  "i \<in> set is \<Longrightarrow> token_text int_other tok i = Inl e
     \<Longrightarrow> \<exists>e'. write_tokens_loop bo int_other fout tok is = Inl e'"
proof (induction "is" arbitrary: fout)
  case Nil
  then show ?case by simp
next
  case (Cons j js)
  show ?case
  proof (cases "write_token bo int_other fout tok j")
    case (Inl e')
    then show ?thesis by simp
  next
    case (Inr fout')
    then have "j \<noteq> i"
      using Cons.prems(2) by (auto simp: write_token_def)
    then have "i \<in> set js"
      using Cons.prems(1) by simp
    then show ?thesis
      using Cons.IH [of fout'] Cons.prems(2) Inr by simp
  qed
qed

lemma write_tokens_fails:
  assumes "i < vocab_size tok" and "token_text int_other tok i = Inl e"
  shows "\<exists>e'. write_tokens bo int_other fout tok = Inl e'"
  unfolding write_tokens_def
  using assms by (intro write_tokens_loop_fails [where i = i and e = e]) simp_all

lemma main_Done_D:
  assumes "main bo enc int_other a json tok models = Done fout"
  shows "\<exists>f0. write_header_and_tokens bo int_other
                 (fst (load_hparams_and_tokenizer json tok)) tok (arg_ftype a) = Inr f0"
  using assms
  by (auto simp: main_def Let_def load_hparams_and_tokenizer_def
      split: if_splits sum.splits)

lemma write_header_and_tokens_fails:
  assumes "i < vocab_size tok" and "token_text int_other tok i = Inl e"
  shows "\<exists>e'. write_header_and_tokens bo int_other hp tok ftype = Inl e'"
proof (cases "write_header bo fopen_wb hp ftype")
  case (Inl e')
  then show ?thesis
    by (simp add: write_header_and_tokens_def)
next
  case (Inr fout)
  with write_tokens_fails [OF assms, of bo fout] show ?thesis
    by (simp add: write_header_and_tokens_def)
qed

text \<open>
  C7. The text of a vocabulary entry follows its category: an unknown entry gives the
  UTF-8 bytes of the three-character placeholder whatever its piece is; a control entry
  gives no bytes; a byte entry whose piece has six characters with hexadecimal digits at
  positions 3 and 4 gives the one byte they spell, so \<^verbatim>\<open><0x41>\<close> gives \<open>0x41\<close>; and a
  byte entry whose piece does not have six characters exits with status 1, so that no run
  whose vocabulary holds such an entry ends normally.
\<close>

theorem token_text_by_category:
  "(is_unknown tok i \<longrightarrow> token_text int_other tok i = Inr [0x20, 0xE2, 0x81, 0x87, 0x20])
   \<and> (\<not> is_unknown tok i \<and> is_control tok i \<longrightarrow> token_text int_other tok i = Inr [])
   \<and> (\<not> is_unknown tok i \<and> \<not> is_control tok i \<and> is_byte tok i
        \<and> id_to_piece tok i = py_str ''<0x41>''
        \<longrightarrow> token_text int_other tok i = Inr [0x41])
   \<and> (\<not> is_unknown tok i \<and> \<not> is_control tok i \<and> is_byte tok i
        \<and> length (id_to_piece tok i) = 6
        \<and> hex_digit (id_to_piece tok i ! 3) = Some a
        \<and> hex_digit (id_to_piece tok i ! 4) = Some b
        \<longrightarrow> token_text int_other tok i = Inr [of_nat (16 * a + b)])
   \<and> (\<not> is_unknown tok i \<and> \<not> is_control tok i \<and> is_byte tok i
        \<and> length (id_to_piece tok i) \<noteq> 6
        \<longrightarrow> token_text int_other tok i = Inl (SysExit 1)
            \<and> (i < vocab_size tok
                 \<longrightarrow> (\<exists>e. write_tokens bo int_other fout tok = Inl e)
                     \<and> (\<forall>f. main bo enc int_other args json tok models \<noteq> Done f)))"
proof -
  have unknown: "token_text int_other tok i = Inr [0x20, 0xE2, 0x81, 0x87, 0x20]"
    if "is_unknown tok i"
    using that by (simp only: token_text_def encode_placeholder if_True)
  have control: "token_text int_other tok i = Inr []"
    if "\<not> is_unknown tok i" "is_control tok i"
    using that by (simp add: token_text_def)
  have hex: "token_text int_other tok i = Inr [of_nat (16 * a + b)]"
    if "\<not> is_unknown tok i" "\<not> is_control tok i" "is_byte tok i"
      "length (id_to_piece tok i) = 6"
      "hex_digit (id_to_piece tok i ! 3) = Some a" "hex_digit (id_to_piece tok i ! 4) = Some b"
    using that by (rule token_text_byte)
  have h41: "token_text int_other tok i = Inr [0x41]"
    if c: "\<not> is_unknown tok i" "\<not> is_control tok i" "is_byte tok i"
      and p: "id_to_piece tok i = py_str ''<0x41>''"
  proof -
    have "token_text int_other tok i = Inr [of_nat (16 * 4 + 1)]"
      using c by (rule token_text_byte) (simp_all add: p py_str_simps hex_digit_def)
    then show ?thesis by simp
  qed
  have bad: "token_text int_other tok i = Inl (SysExit 1)"
    if "\<not> is_unknown tok i" "\<not> is_control tok i" "is_byte tok i"
      "length (id_to_piece tok i) \<noteq> 6"
    using that by (simp add: token_text_def)
  have abort: "(\<exists>e. write_tokens bo int_other fout tok = Inl e)
      \<and> (\<forall>f. main bo enc int_other args json tok models \<noteq> Done f)"
    if t: "token_text int_other tok i = Inl (SysExit 1)" and i: "i < vocab_size tok"
  proof -
    have "\<exists>e. write_header_and_tokens bo int_other
                 (fst (load_hparams_and_tokenizer json tok)) tok (arg_ftype args) = Inl e"
      using i t by (rule write_header_and_tokens_fails)
    then have "main bo enc int_other args json tok models \<noteq> Done f" for f
      using main_Done_D [of bo enc int_other args json tok models f] by auto
    with write_tokens_fails [OF i t] show ?thesis
      by blast
  qed
  from unknown control hex h41 bad abort show ?thesis
    by blast
qed

theorem token_text_by_category_witness:
  "(let tok = \<lparr>vocab_size = 4, is_unknown = (\<lambda>i. i = 0), is_control = (\<lambda>i. i = 1),
               is_byte = (\<lambda>i. i = 2 \<or> i = 3),
               id_to_piece = (\<lambda>i. if i = 2 then py_str ''<0x41>'' else py_str ''<0x4>''),
               get_score = (\<lambda>i. 0)\<rparr>;
        int_other = (\<lambda>s. Inl ValueError)
    in token_text int_other tok 0 = Inr [0x20, 0xE2, 0x81, 0x87, 0x20]
       \<and> token_text int_other tok 1 = Inr []
       \<and> token_text int_other tok 2 = Inr [0x41]
       \<and> token_text int_other tok 3 = Inl (SysExit 1)
       \<and> (\<exists>e. write_tokens LittleEndian int_other fopen_wb tok = Inl e)
       \<and> (\<forall>f. main LittleEndian (\<lambda>dt (e::nat). []) int_other
                  \<lparr>arg_ftype = 1, arg_vocab_only = True\<rparr> Map.empty tok [] \<noteq> Done f))"
proof -
  let ?tok = "\<lparr>vocab_size = 4, is_unknown = (\<lambda>i. i = 0), is_control = (\<lambda>i. i = 1),
               is_byte = (\<lambda>i. i = 2 \<or> i = 3),
               id_to_piece = (\<lambda>i. if i = 2 then py_str ''<0x41>'' else py_str ''<0x4>''),
               get_score = (\<lambda>i. 0)\<rparr>"
  let ?io = "\<lambda>s::pystr. (Inl ValueError :: error + int)"
  note t = token_text_by_category [where tok = ?tok and int_other = ?io and bo = LittleEndian
      and fout = fopen_wb and enc = "\<lambda>dt (e::nat). []"
      and args = "\<lparr>arg_ftype = 1, arg_vocab_only = True\<rparr>" and json = Map.empty
      and models = "[]"]
  have "token_text ?io ?tok 0 = Inr [0x20, 0xE2, 0x81, 0x87, 0x20]"
    using t [of 0] by simp
  moreover have "token_text ?io ?tok 1 = Inr []"
    using t [of 1] by simp
  moreover have "token_text ?io ?tok 2 = Inr [0x41]"
    using t [of 2] by simp
  moreover have "token_text ?io ?tok 3 = Inl (SysExit 1)
      \<and> (\<exists>e. write_tokens LittleEndian ?io fopen_wb ?tok = Inl e)
      \<and> (\<forall>f. main LittleEndian (\<lambda>dt (e::nat). []) ?io
                  \<lparr>arg_ftype = 1, arg_vocab_only = True\<rparr> Map.empty ?tok [] \<noteq> Done f)"
    using t [of 3] by (simp add: py_str_simps)
  ultimately show ?thesis
    unfolding Let_def by blast
qed

subsection \<open>Vocabulary size in the header\<close>

lemma write_tokens_loop_Inr:
  "write_tokens_loop bo int_other fout tok is = Inr fout'
     \<Longrightarrow> \<exists>recs. map (token_record bo int_other tok) is = map Inr recs
               \<and> fout' = fout_write fout (concat recs)"
proof (induction "is" arbitrary: fout)
  case Nil
  then have "map (token_record bo int_other tok) [] = map Inr []
      \<and> fout' = fout_write fout (concat [])"
    by (simp add: fout_write_def)
  then show ?case by blast
next
  case (Cons i "is")
  from Cons.prems obtain r where r: "token_record bo int_other tok i = Inr r"
    and rest: "write_tokens_loop bo int_other (fout_write fout r) tok is = Inr fout'"
    by (auto simp: write_token_record split: sum.splits)
  from Cons.IH [OF rest] obtain recs where
    m: "map (token_record bo int_other tok) is = map Inr recs"
    and f: "fout' = fout_write (fout_write fout r) (concat recs)"
    by blast
  have "map (token_record bo int_other tok) (i # is) = map Inr (r # recs)
      \<and> fout' = fout_write fout (concat (r # recs))"
    using r m f by (simp add: fout_write_append)
  then show ?case by blast
qed

lemma header_values_loaded:
  assumes "header_values (fst (load_hparams_and_tokenizer json tok)) ftype = Inr vals"
  shows "length vals = 9 \<and> vals ! 2 = int (vocab_size tok)"
  using assms
  by (auto simp: header_values_def header_keys_def hget_def load_hparams_and_tokenizer_def
      split: sum.splits option.splits)

lemma unpack_is_nth:
  "list_all int32 vs \<Longrightarrow> k < length vs \<Longrightarrow>
     unpack_i bo (take 4 (drop (4 * k) (concat (map (\<lambda>v. native bo (le_bytes 4 v)) vs))))
       = vs ! k"
proof (induction vs arbitrary: k)
  case Nil
  then show ?case by simp
next
  case (Cons v vs)
  have l: "length (native bo (le_bytes 4 v)) = 4"
    by (simp add: length_native length_le_bytes)
  show ?case
  proof (cases k)
    case 0
    then show ?thesis
      using Cons.prems by (simp add: l unpack_i_pack int32_def)
  next
    case (Suc j)
    then show ?thesis
      using Cons.prems Cons.IH [of j] by (simp add: l)
  qed
qed

lemma file_bytes_fopen_write: "file_bytes (fout_write fopen_wb bs) = bs"
proof -
  have "file_bytes (fout_write fopen_wb bs) = file_bytes fopen_wb @ bs"
    by (rule file_bytes_fout_write_at_end) (simp add: fopen_wb_def)
  then show ?thesis
    by (simp add: file_bytes_def fopen_wb_def)
qed

text \<open>
  C10. The hyperparameters handed to the header writer carry the tokenizer's vocabulary
  size under \<open>vocab_size\<close>, whatever \<^verbatim>\<open>params.json\<close> held there. When header and
  vocabulary have been written, the file is the 36-byte header followed by the
  vocabulary records; the header's third integer is the tokenizer's vocabulary size, and
  there is exactly one record for each index below that size.
\<close>

theorem header_vocab_size_counts_records:
  assumes "write_header_and_tokens bo int_other (fst (load_hparams_and_tokenizer json tok))
             (snd (load_hparams_and_tokenizer json tok)) ftype = Inr fout"
  shows "fst (load_hparams_and_tokenizer json tok) ''vocab_size'' = Some (int (vocab_size tok))
       \<and> (\<exists>hdr recs. file_bytes fout = hdr @ concat recs
             \<and> length hdr = 36
             \<and> unpack_i bo (take 4 (drop 8 hdr)) = int (vocab_size tok)
             \<and> length recs = vocab_size tok
             \<and> map (token_record bo int_other tok) [0..<vocab_size tok] = map Inr recs)"
proof -
  let ?hp = "fst (load_hparams_and_tokenizer json tok)"
  have tok: "snd (load_hparams_and_tokenizer json tok) = tok"
    by (simp add: load_hparams_and_tokenizer_def)
  have over: "?hp ''vocab_size'' = Some (int (vocab_size tok))"
    by (simp add: load_hparams_and_tokenizer_def)
  from assms obtain f1 where h: "write_header bo fopen_wb ?hp ftype = Inr f1"
    and t: "write_tokens bo int_other f1 tok = Inr fout"
    by (auto simp: write_header_and_tokens_def tok split: sum.splits)
  from h obtain vals hdr where v: "header_values ?hp ftype = Inr vals"
    and p: "pack_is bo vals = Inr hdr" and f1: "f1 = fout_write fopen_wb hdr"
    by (auto simp: write_header_def split: sum.splits)
  from pack_is_Inr_D [OF p] have r: "list_all int32 vals"
    and hdr: "hdr = concat (map (\<lambda>v. native bo (le_bytes 4 v)) vals)"
    by simp_all
  from header_values_loaded [OF v] have n: "length vals = 9"
    and v2: "vals ! 2 = int (vocab_size tok)"
    by simp_all
  have len: "length hdr = 36"
    unfolding hdr length_packed n by simp
  have "unpack_i bo (take 4 (drop (4 * 2) hdr)) = vals ! 2"
    unfolding hdr using r by (rule unpack_is_nth) (simp add: n)
  then have field: "unpack_i bo (take 4 (drop 8 hdr)) = int (vocab_size tok)"
    by (simp add: v2)
  from t obtain recs where
    m: "map (token_record bo int_other tok) [0..<vocab_size tok] = map Inr recs"
    and f: "fout = fout_write f1 (concat recs)"
    unfolding write_tokens_def by (blast dest: write_tokens_loop_Inr)
  have "length (map (token_record bo int_other tok) [0..<vocab_size tok])
          = length (map Inr recs :: (error + byte list) list)"
    by (simp only: m)
  then have cnt: "length recs = vocab_size tok"
    by simp
  have bytes: "file_bytes fout = hdr @ concat recs"
    unfolding f f1 fout_write_append by (rule file_bytes_fopen_write)
  from over bytes len field cnt m show ?thesis
    by blast
qed

theorem header_vocab_size_counts_records_witness:
  "(let json = [''vocab_size'' \<mapsto> 32000, ''dim'' \<mapsto> 4096, ''multiple_of'' \<mapsto> 256,
                ''n_heads'' \<mapsto> 32, ''n_layers'' \<mapsto> 1];
        tok = \<lparr>vocab_size = 2, is_unknown = (\<lambda>i. i = 0), is_control = (\<lambda>i. i = 1),
               is_byte = (\<lambda>i. False), id_to_piece = (\<lambda>i. []), get_score = (\<lambda>i. 0)\<rparr>;
        int_other = (\<lambda>s. Inl ValueError)
    in \<exists>fout. write_header_and_tokens LittleEndian int_other
                 (fst (load_hparams_and_tokenizer json tok))
                 (snd (load_hparams_and_tokenizer json tok)) 1 = Inr fout
          \<and> fst (load_hparams_and_tokenizer json tok) ''vocab_size'' = Some 2
          \<and> (\<exists>hdr recs. file_bytes fout = hdr @ concat recs
                \<and> length hdr = 36
                \<and> unpack_i LittleEndian (take 4 (drop 8 hdr)) = 2
                \<and> length recs = 2))"
proof -
  let ?json = "[''vocab_size'' \<mapsto> 32000, ''dim'' \<mapsto> 4096, ''multiple_of'' \<mapsto> 256,
                ''n_heads'' \<mapsto> 32, ''n_layers'' \<mapsto> (1::int)]"
  let ?tok = "\<lparr>vocab_size = 2, is_unknown = (\<lambda>i. i = 0), is_control = (\<lambda>i. i = 1),
               is_byte = (\<lambda>i. False), id_to_piece = (\<lambda>i. []), get_score = (\<lambda>i. 0)\<rparr>"
  let ?io = "\<lambda>s::pystr. (Inl ValueError :: error + int)"
  have u: "[0..<2] = [0, 1::nat]"
    by (simp add: upt_rec)
  have "\<exists>fout. write_header_and_tokens LittleEndian ?io
                 (fst (load_hparams_and_tokenizer ?json ?tok))
                 (snd (load_hparams_and_tokenizer ?json ?tok)) 1 = Inr fout"
    by (simp add: write_header_and_tokens_def write_header_def header_values_def
        header_keys_def hget_def py_floordiv_def load_hparams_and_tokenizer_def pack_i_def
        write_tokens_def u write_token_def token_text_def utf8_char_def)
  then obtain fout where
    w: "write_header_and_tokens LittleEndian ?io (fst (load_hparams_and_tokenizer ?json ?tok))
          (snd (load_hparams_and_tokenizer ?json ?tok)) 1 = Inr fout"
    by blast
  from header_vocab_size_counts_records [OF w] w show ?thesis
    unfolding Let_def by auto
qed

subsection \<open>Writes that leave the lower part of the file alone\<close>

lemma same_below_refl: "same_below m f f"
  by (simp add: same_below_def)

lemma same_below_trans: "same_below m f g \<Longrightarrow> same_below m g h \<Longrightarrow> same_below m f h"
  by (simp add: same_below_def)

lemma same_below_mono: "same_below m f g \<Longrightarrow> k \<le> m \<Longrightarrow> same_below k f g"
  by (simp add: same_below_def)

lemma same_below_write:
  assumes "m \<le> cursor f" and "m \<le> fsize f"
  shows "same_below m f (fout_write f bs)"
  using assms by (auto simp: same_below_def bytes_at_fout_write fsize_fout_write)

lemma same_below_seek:
  "fout_seek f p = Inr g \<Longrightarrow> same_below m f g \<and> cursor g = nat p \<and> 0 \<le> p"
  by (auto simp: fout_seek_def same_below_def split: if_splits)

lemma same_below_region:
  "same_below m f g \<Longrightarrow> a + n \<le> m \<Longrightarrow> region g a n = region f a n"
  by (simp add: same_below_def region_def)

lemma same_below_fsize: "same_below m f g \<Longrightarrow> fsize f \<le> fsize g"
  by (simp add: same_below_def)

lemma region_fout_write:
  "region (fout_write f bs) (cursor f) (length bs) = bs"
  by (rule nth_equalityI) (simp_all add: region_def bytes_at_fout_write)

lemma fsize_fout_write_ge: "bs \<noteq> [] \<Longrightarrow> cursor f + length bs \<le> fsize (fout_write f bs)"
  by (simp add: fsize_fout_write)

subsection \<open>Alignment\<close>

lemma neg_mod_step:
  assumes "(x::int) mod 32 \<noteq> 0"
  shows "(- x) mod 32 = (- (x + 1)) mod 32 + 1"
proof -
  have r: "0 \<le> x mod 32" "x mod 32 < 32"
    by simp_all
  have e: "(- x) mod 32 = 32 - x mod 32"
    using assms by (simp add: zmod_zminus1_eq_if)
  have s: "(x + 1) mod 32 = (x mod 32 + 1) mod 32"
    by (simp add: mod_add_left_eq)
  show ?thesis
  proof (cases "x mod 32 = 31")
    case True
    then have "(x + 1) mod 32 = 0"
      using s by simp
    then have "(- (x + 1)) mod 32 = 0"
      using zmod_zminus1_eq_if [of "x + 1" 32] by simp
    then show ?thesis
      using e True by linarith
  next
    case False
    then have "x mod 32 + 1 < 32"
      using r assms by linarith
    then have "(x + 1) mod 32 = x mod 32 + 1"
      using s r by simp
    then have "(- (x + 1)) mod 32 = 32 - (x mod 32 + 1)"
      using r zmod_zminus1_eq_if [of "x + 1" 32] by simp
    then show ?thesis
      using e by linarith
  qed
qed

lemma align_loop_eq:
  "align_loop fout off
     = (fout_write fout (replicate (nat ((- off) mod 32)) 0), off + (- off) mod 32)"
proof (induction fout off rule: align_loop.induct)
  case (1 fout off)
  show ?case
  proof (cases "off mod 32 = 0")
    case True
    then have "(- off) mod 32 = 0"
      by (simp add: zmod_zminus1_eq_if)
    then show ?thesis
      using True by (subst align_loop.simps) (simp add: QK_def fout_write_def)
  next
    case False
    have k: "(- off) mod 32 = (- (off + 1)) mod 32 + 1"
      using False by (rule neg_mod_step)
    have nn: "0 \<le> (- (off + 1)) mod 32"
      by simp
    have rep: "replicate (nat ((- off) mod 32)) (0::byte)
                 = [0] @ replicate (nat ((- (off + 1)) mod 32)) 0"
      unfolding k using nn by (simp add: nat_add_distrib)
    have "align_loop fout off = align_loop (fout_write fout [0]) (off + 1)"
      using False by (subst align_loop.simps) (simp add: QK_def)
    also have "\<dots> = (fout_write (fout_write fout [0])
                          (replicate (nat ((- (off + 1)) mod 32)) 0),
                       off + 1 + (- (off + 1)) mod 32)"
      using False "1.IH" by (simp add: QK_def)
    also have "fout_write (fout_write fout [0]) (replicate (nat ((- (off + 1)) mod 32)) 0)
                 = fout_write fout (replicate (nat ((- off) mod 32)) 0)"
      by (simp only: rep fout_write_append)
    also have "off + 1 + (- (off + 1)) mod 32 = off + (- off) mod 32"
      using k by linarith
    finally show ?thesis .
  qed
qed

lemma aligned_offset: "((off::int) + (- off) mod 32) mod 32 = 0"
proof -
  have "(off + (- off) mod 32) mod 32 = (off + - off) mod 32"
    by (rule mod_add_right_eq)
  then show ?thesis by simp
qed

lemma no_earlier_multiple:
  assumes "k < nat ((- c) mod 32)"
  shows "(c + int k) mod 32 \<noteq> 0"
proof
  assume "(c + int k) mod 32 = 0"
  then have "32 dvd c + int k"
    by (simp add: mod_eq_0_iff_dvd)
  then obtain q where q: "c + int k = 32 * q"
    by (rule dvdE)
  have "- c = int k + 32 * (- q)"
    using q by linarith
  then have "(- c) mod 32 = (int k + 32 * (- q)) mod 32"
    by simp
  also have "\<dots> = int k mod 32"
    by (rule mod_mult_self2)
  also have "\<dots> = int k"
    using assms by simp
  finally show False
    using assms by linarith
qed

lemma begin_record_Inr_D:
  assumes "begin_record bo fout name n_dims ftype_cur partshape = Inr (fout', off)"
  shows "\<exists>h. write_tensor_header bo fout name n_dims ftype_cur partshape = Inr h
           \<and> fout' = fout_write h (replicate (nat ((- fout_tell h) mod 32)) 0)
           \<and> off = fout_tell h + (- fout_tell h) mod 32"
  using assms by (auto simp: begin_record_def align_loop_eq split: sum.splits)

text \<open>
  C4. When header and name of a tensor record have been written, the body-start offset
  is the next multiple of 32 at or after the end of the name, for every encoding of
  the tensor: it is a multiple of 32, fewer than 32 bytes were added, none of the offsets
  passed over is a multiple of 32, the bytes added are zero, and the cursor stands at the
  body start. A tensor that is not split is written there by the shard 0.
\<close>

theorem body_start_aligned:
  assumes "begin_record bo fout name n_dims ftype_cur partshape = Inr (fout', tensor_data_offset)"
  shows "tensor_data_offset mod 32 = 0
       \<and> fout_tell fout' = tensor_data_offset
       \<and> (\<exists>h pad. write_tensor_header bo fout name n_dims ftype_cur partshape = Inr h
             \<and> pad < 32
             \<and> tensor_data_offset = fout_tell h + int pad
             \<and> (\<forall>k<pad. (fout_tell h + int k) mod 32 \<noteq> 0)
             \<and> fout' = fout_write h (replicate pad 0)
             \<and> region fout' (cursor h) pad = replicate pad 0)
       \<and> (n_dims = 1 \<or> n_parts = 1 \<longrightarrow>
            write_data enc fout' tensor_data_offset data partshape n_dims split_dim blck_size
              type_size 0 n_parts = Inr (fout_write fout' (tobytes enc data))
            \<and> region (fout_write fout' (tobytes enc data)) (nat tensor_data_offset)
                 (length (tobytes enc data)) = tobytes enc data)"
proof -
  from begin_record_Inr_D [OF assms] obtain h where
    h: "write_tensor_header bo fout name n_dims ftype_cur partshape = Inr h"
    and f: "fout' = fout_write h (replicate (nat ((- fout_tell h) mod 32)) 0)"
    and o: "tensor_data_offset = fout_tell h + (- fout_tell h) mod 32"
    by blast
  let ?pad = "nat ((- fout_tell h) mod 32)"
  have p0: "0 \<le> (- fout_tell h) mod 32" and p1: "(- fout_tell h) mod 32 < 32"
    by simp_all
  have pad: "?pad < 32"
    using p0 p1 by linarith
  have ipad: "int ?pad = (- fout_tell h) mod 32"
    using p0 by simp
  have a: "tensor_data_offset mod 32 = 0"
    unfolding o by (rule aligned_offset)
  have c: "fout_tell fout' = tensor_data_offset"
    unfolding f o fout_tell_def using p0 by (simp add: cursor_fout_write)
  have least: "\<forall>k<?pad. (fout_tell h + int k) mod 32 \<noteq> 0"
    by (simp add: no_earlier_multiple)
  have z: "region fout' (cursor h) ?pad = replicate ?pad 0"
    unfolding f using region_fout_write [of h "replicate ?pad 0"] by simp
  have rec: "\<exists>h pad. write_tensor_header bo fout name n_dims ftype_cur partshape = Inr h
             \<and> pad < 32
             \<and> tensor_data_offset = fout_tell h + int pad
             \<and> (\<forall>k<pad. (fout_tell h + int k) mod 32 \<noteq> 0)
             \<and> fout' = fout_write h (replicate pad 0)
             \<and> region fout' (cursor h) pad = replicate pad 0"
    using h pad o ipad least f z by (intro exI [of _ h] exI [of _ ?pad]) simp
  have cur: "cursor fout' = nat tensor_data_offset"
    using c by (simp add: fout_tell_def)
  have body: "write_data enc fout' tensor_data_offset data partshape n_dims split_dim blck_size
              type_size 0 n_parts = Inr (fout_write fout' (tobytes enc data))
            \<and> region (fout_write fout' (tobytes enc data)) (nat tensor_data_offset)
                 (length (tobytes enc data)) = tobytes enc data"
    if "n_dims = 1 \<or> n_parts = 1"
    using that region_fout_write [of fout' "tobytes enc data"]
    by (simp add: write_data_def tofile_def cur)
  from a c rec body show ?thesis
    by blast
qed

theorem body_start_aligned_witness:
  "\<exists>fout'. begin_record LittleEndian fopen_wb (py_str ''norm.weight'') 1 0 [2] = Inr (fout', 32)
      \<and> (32::int) mod 32 = 0
      \<and> fout_tell fout' = 32
      \<and> region fout' 27 5 = [0, 0, 0, 0, 0]
      \<and> region
           (fout_write fout'
              (tobytes (\<lambda>dt e. [e, 0, 0, 0])
                 \<lparr>arr_shape = [2], arr_dtype = Float32, arr_elems = [1, 2]\<rparr>))
           32 8 = [1, 0, 0, 0, 2, 0, 0, 0]"
proof -
  let ?data = "\<lparr>arr_shape = [2], arr_dtype = Float32, arr_elems = [1, 2 :: byte]\<rparr>"
  let ?enc = "\<lambda>(dt::np_dtype) (e::byte). [e, 0, 0, 0]"
  have h: "\<exists>h. write_tensor_header LittleEndian fopen_wb (py_str ''norm.weight'') 1 0 [2] = Inr h
      \<and> cursor h = 27"
    by (simp add: write_tensor_header_def py_str_simps utf8_char_def pack_i_def
        cursor_fout_write fopen_wb_def length_native length_le_bytes)
  have m: "(- 27) mod 32 = (5::int)"
    by simp
  have "\<exists>fout'. begin_record LittleEndian fopen_wb (py_str ''norm.weight'') 1 0 [2]
      = Inr (fout', 32)"
    using h by (auto simp: begin_record_def align_loop_eq fout_tell_def m)
  then obtain fout' where
    b: "begin_record LittleEndian fopen_wb (py_str ''norm.weight'') 1 0 [2] = Inr (fout', 32)"
    by blast
  from body_start_aligned [OF b, where n_parts = 1 and enc = ?enc and data = ?data
      and split_dim = 0 and blck_size = 1 and type_size = 4]
  obtain h' pad where t: "fout_tell fout' = 32"
    and h': "write_tensor_header LittleEndian fopen_wb (py_str ''norm.weight'') 1 0 [2] = Inr h'"
    and p: "32 = fout_tell h' + int pad"
    and z: "region fout' (cursor h') pad = replicate pad 0"
    and d: "region (fout_write fout' (tobytes ?enc ?data)) (nat 32) (length (tobytes ?enc ?data))
              = tobytes ?enc ?data"
    by auto
  from h h' have c: "cursor h' = 27"
    by auto
  then have "pad = 5"
    using p by (simp add: fout_tell_def)
  then have z': "region fout' 27 5 = [0, 0, 0, 0, 0]"
    using z c by (simp add: eval_nat_numeral)
  have d': "region (fout_write fout' (tobytes ?enc ?data)) 32 8 = [1, 0, 0, 0, 2, 0, 0, 0]"
    using d by (simp add: tobytes_def eval_nat_numeral)
  from b t z' d' show ?thesis
    by auto
qed

subsection \<open>The record header as one string\<close>

lemma write_dims_eq:
  "write_dims bo f dims = Inr g \<Longrightarrow>
     list_all int32 dims \<and> g = fout_write f (concat (map (\<lambda>v. native bo (le_bytes 4 v)) dims))"
proof (induction dims arbitrary: f)
  case Nil
  then show ?case by (simp add: fout_write_def)
next
  case (Cons d dims)
  from Cons.prems obtain b where b: "pack_i bo d = Inr b"
    and rest: "write_dims bo (fout_write f b) dims = Inr g"
    by (auto split: sum.splits)
  from b have d: "int32 d" and b': "b = native bo (le_bytes 4 d)"
    by (simp_all add: pack_i_Inr_iff)
  from Cons.IH [OF rest] show ?case
    using d b' by (simp add: fout_write_append)
qed

lemma write_tensor_header_eq:
  assumes "write_tensor_header bo fout name n_dims ftype_cur partshape = Inr h"
  shows "\<exists>sname. encode name = Inr sname
           \<and> list_all int32 ([n_dims, int (length sname), ftype_cur] @ rev partshape)
           \<and> h = fout_write fout
                   (concat (map (\<lambda>v. native bo (le_bytes 4 v))
                      ([n_dims, int (length sname), ftype_cur] @ rev partshape)) @ sname)"
proof -
  from assms obtain sname b g where s: "encode name = Inr sname"
    and b: "pack_is bo [n_dims, int (length sname), ftype_cur] = Inr b"
    and g: "write_dims bo (fout_write fout b) (rev partshape) = Inr g"
    and h: "h = fout_write g sname"
    by (auto simp: write_tensor_header_def split: sum.splits)
  from pack_is_Inr_D [OF b] have r3: "list_all int32 [n_dims, int (length sname), ftype_cur]"
    and b': "b = concat (map (\<lambda>v. native bo (le_bytes 4 v)) [n_dims, int (length sname), ftype_cur])"
    by simp_all
  from write_dims_eq [OF g] have rd: "list_all int32 (rev partshape)"
    and g': "g = fout_write (fout_write fout b)
                   (concat (map (\<lambda>v. native bo (le_bytes 4 v)) (rev partshape)))"
    by simp_all
  have "h = fout_write fout
              (concat (map (\<lambda>v. native bo (le_bytes 4 v))
                 ([n_dims, int (length sname), ftype_cur] @ rev partshape)) @ sname)"
    unfolding h g' b' fout_write_append by simp
  moreover have "list_all int32 ([n_dims, int (length sname), ftype_cur] @ rev partshape)"
    using r3 rd by simp
  ultimately show ?thesis
    using s by blast
qed

lemma region_append: "region f a (n + k) = region f a n @ region f (a + n) k"
proof -
  have "[a..<a + (n + k)] = [a..<a + n] @ [a + n..<a + n + k]"
    using upt_add_eq_append [of a "a + n" k] by (simp add: add.assoc)
  then show ?thesis
    by (simp add: region_def)
qed

lemma region_slice:
  assumes "region f a n = bs" and "j + k \<le> n"
  shows "region f (a + j) k = take k (drop j bs)"
proof -
  have "n = j + (k + (n - j - k))"
    using assms(2) by simp
  then have "region f a n = region f a j @ region f (a + j) k @ region f (a + j + k) (n - j - k)"
    by (metis region_append)
  moreover have "length (region f a j) = j" "length (region f (a + j) k) = k"
    by (simp_all add: region_def)
  ultimately show ?thesis
    using assms(1) by auto
qed

subsection \<open>The data writes stay at or above the body start\<close>

lemma seek_write_same_below:
  assumes "fout_seek f p = Inr f'" and "int m \<le> p" and "m \<le> fsize f"
  shows "same_below m f (fout_write f' bs)"
proof -
  from same_below_seek [OF assms(1)] have s: "same_below m f f'" and c: "cursor f' = nat p"
    by simp_all
  have "m \<le> cursor f'"
    using c assms(2) by linarith
  moreover have "m \<le> fsize f'"
    using same_below_fsize [OF s] assms(3) by linarith
  ultimately have "same_below m f' (fout_write f' bs)"
    by (rule same_below_write)
  with s show ?thesis
    by (rule same_below_trans)
qed

lemma write_rows_same_below:
  assumes "write_rows enc f off data bytes_per_row offset_current_col rows = Inr g"
    and "m \<le> fsize f" and "int m \<le> off" and "0 \<le> bytes_per_row" and "0 \<le> offset_current_col"
  shows "same_below m f g"
  using assms(1,2)
proof (induction rows arbitrary: f)
  case Nil
  then show ?case by (simp add: same_below_refl)
next
  case (Cons row rows)
  let ?p = "off + (int row * bytes_per_row + offset_current_col)"
  from Cons.prems(1) obtain f' where s: "fout_seek f ?p = Inr f'"
    and rest: "write_rows enc (tofile enc (get_row data row) f') off data bytes_per_row
                 offset_current_col rows = Inr g"
    by (auto simp: Let_def split: sum.splits)
  have "0 \<le> int row * bytes_per_row"
    using assms(4) by simp
  then have p: "int m \<le> ?p"
    using assms(3,5) by linarith
  have one: "same_below m f (tofile enc (get_row data row) f')"
    unfolding tofile_def using s p Cons.prems(2) by (rule seek_write_same_below)
  then have "m \<le> fsize (tofile enc (get_row data row) f')"
    using same_below_fsize [OF one] Cons.prems(2) by linarith
  with rest have "same_below m (tofile enc (get_row data row) f') g"
    by (rule Cons.IH)
  with one show ?case
    by (rule same_below_trans)
qed

lemma write_data_same_below:
  assumes "write_data enc f off data partshape n_dims split_dim blck_size type_size part_id
             n_parts = Inr g"
    and "m \<le> fsize f" and "int m \<le> off" and "m \<le> cursor f"
    and "0 \<le> part_id" and "n_dims = 1 \<or> (0 \<le> partshape ! 0 \<and> 0 \<le> partshape ! 1)"
    and "0 \<le> blck_size" and "0 \<le> type_size"
  shows "same_below m f g"
proof -
  have bpr: "0 \<le> partshape ! 1 div blck_size * type_size" if "n_dims \<noteq> 1"
    using that assms(6,7,8) by (simp add: div_int_pos_iff)
  have col: "0 \<le> part_id * (partshape ! 1) div blck_size * type_size" if "n_dims \<noteq> 1"
    using that assms(5,6,7,8) by (simp add: div_int_pos_iff)
  have row: "0 \<le> part_id * (partshape ! 0) * (partshape ! 1 div blck_size * type_size)"
    if "n_dims \<noteq> 1"
    using that assms(5,6) bpr by simp
  consider (whole) "n_dims = 1 \<or> n_parts = 1"
    | (rows) "\<not> (n_dims = 1 \<or> n_parts = 1)" "split_dim = 0"
    | (cols) "\<not> (n_dims = 1 \<or> n_parts = 1)" "split_dim \<noteq> 0" "split_dim = 1"
    | (none) "\<not> (n_dims = 1 \<or> n_parts = 1)" "split_dim \<noteq> 0" "split_dim \<noteq> 1"
    by blast
  then show ?thesis
  proof cases
    case whole
    then have "g = (if part_id = 0 then fout_write f (tobytes enc data) else f)"
      using assms(1) by (auto simp: write_data_def tofile_def split: if_splits)
    then show ?thesis
      using same_below_write [OF assms(4,2)] by (simp add: same_below_refl)
  next
    case rows
    then obtain f' where
      s: "fout_seek f (off + part_id * (partshape ! 0) * (partshape ! 1 div blck_size * type_size))
            = Inr f'"
      and g: "g = fout_write f' (tobytes enc data)"
      using assms(1) by (auto simp: write_data_def tofile_def Let_def split: sum.splits)
    have "int m \<le> off + part_id * (partshape ! 0) * (partshape ! 1 div blck_size * type_size)"
      using row rows(1) assms(3) by fastforce
    with s show ?thesis
      unfolding g using assms(2) by (rule seek_write_same_below)
  next
    case cols
    then have w: "write_rows enc f off data (partshape ! 1 div blck_size * type_size)
        (part_id * (partshape ! 1) div blck_size * type_size) [0..<nat (partshape ! 0)] = Inr g"
      using assms(1) by (simp add: write_data_def Let_def)
    have n1: "n_dims \<noteq> 1"
      using cols(1) by simp
    show ?thesis
      using w assms(2,3) bpr [OF n1] col [OF n1] by (rule write_rows_same_below)
  next
    case none
    then have "g = f"
      using assms(1) by (simp add: write_data_def)
    then show ?thesis
      by (simp add: same_below_refl)
  qed
qed

subsection \<open>One tensor record\<close>

lemma write_variable_Inr_D:
  fixes datao :: "'e ndarray"
  defines "n_dims \<equiv> int (length (arr_shape (squeeze datao)))"
  defines "partshape \<equiv> map int (arr_shape (squeeze datao))"
  defines "ftype_cur \<equiv> (\<lambda>ftype. fst (convert_data ftype n_dims (squeeze datao)))"
  defines "data \<equiv> (\<lambda>ftype. snd (convert_data ftype n_dims (squeeze datao)))"
  assumes "write_variable bo enc fout (name, datao) ftype part_id n_parts = Inr fout'"
    and "\<not> suffix (py_str ''freqs'') name"
  shows "\<exists>t f1 off f2 nbytes.
           (n_dims = 1 \<or> n_dims = 2)
         \<and> WTYPES (ftype_cur ftype) = Inr t
         \<and> begin_record bo fout name n_dims (ftype_cur ftype) partshape = Inr (f1, off)
         \<and> write_data enc f1 off (data ftype) partshape n_dims (split_dim_of name)
              (GGML_BLCK_SIZE t) (GGML_TYPE_SIZE t) part_id n_parts = Inr f2
         \<and> ggml_nbytes partshape (ftype_cur ftype) = Inr nbytes
         \<and> fout_seek f2 (off + nbytes) = Inr fout'"
proof -
  have nd: "n_dims = 1 \<or> n_dims = 2"
    using assms(5,6) unfolding write_variable_def Let_def fst_conv snd_conv n_dims_def
    by (simp split: if_splits)
  then have "(case WTYPES (ftype_cur ftype) of
        Inl e \<Rightarrow> Inl e
      | Inr t \<Rightarrow>
          (case begin_record bo fout name n_dims (ftype_cur ftype) partshape of
             Inl e \<Rightarrow> Inl e
           | Inr (fout1, tensor_data_offset) \<Rightarrow>
               (case write_data enc fout1 tensor_data_offset (data ftype) partshape n_dims
                       (split_dim_of name) (GGML_BLCK_SIZE t) (GGML_TYPE_SIZE t) part_id n_parts of
                  Inl e \<Rightarrow> Inl e
                | Inr fout2 \<Rightarrow>
                    (case ggml_nbytes partshape (ftype_cur ftype) of
                       Inl e \<Rightarrow> Inl e
                     | Inr nbytes \<Rightarrow> fout_seek fout2 (tensor_data_offset + nbytes))))) = Inr fout'"
    using assms(5,6)
    unfolding write_variable_def Let_def fst_conv snd_conv n_dims_def partshape_def
      ftype_cur_def data_def
    by (simp split: if_splits)
  then show ?thesis
    using nd by (auto split: sum.splits prod.splits)
qed

lemma GGML_sizes_nonneg: "0 \<le> GGML_BLCK_SIZE t" "0 \<le> GGML_TYPE_SIZE t"
  by (cases t; simp add: QK_def)+

lemma write_variable_record:
  fixes datao :: "'e ndarray"
  defines "n_dims \<equiv> int (length (arr_shape (squeeze datao)))"
  defines "partshape \<equiv> map int (arr_shape (squeeze datao))"
  defines "ftype_cur \<equiv> (\<lambda>ftype. fst (convert_data ftype n_dims (squeeze datao)))"
  assumes w: "write_variable bo enc fout (name, datao) ftype part_id n_parts = Inr fout'"
    and nf: "\<not> suffix (py_str ''freqs'') name"
    and pid: "0 \<le> part_id"
  shows "\<exists>sname pad nbytes.
           encode name = Inr sname
         \<and> pad < 32
         \<and> (int (cursor fout) + 4 * (3 + n_dims) + int (length sname) + int pad) mod 32 = 0
         \<and> region fout' (cursor fout) (4 * (3 + nat n_dims) + length sname + pad)
             = concat (map (\<lambda>v. native bo (le_bytes 4 v))
                 ([n_dims, int (length sname), ftype_cur ftype] @ rev partshape))
               @ sname @ replicate pad 0
         \<and> list_all int32 ([n_dims, int (length sname), ftype_cur ftype] @ rev partshape)
         \<and> ggml_nbytes partshape (ftype_cur ftype) = Inr nbytes
         \<and> fout_tell fout'
             = int (cursor fout) + 4 * (3 + n_dims) + int (length sname) + int pad + nbytes"
proof -
  let ?data = "snd (convert_data ftype n_dims (squeeze datao))"
  from write_variable_Inr_D [OF w nf] obtain t f1 off f2 nbytes where
    nd: "n_dims = 1 \<or> n_dims = 2"
    and b: "begin_record bo fout name n_dims (ftype_cur ftype) partshape = Inr (f1, off)"
    and d: "write_data enc f1 off ?data partshape n_dims (split_dim_of name)
              (GGML_BLCK_SIZE t) (GGML_TYPE_SIZE t) part_id n_parts = Inr f2"
    and nb: "ggml_nbytes partshape (ftype_cur ftype) = Inr nbytes"
    and sk: "fout_seek f2 (off + nbytes) = Inr fout'"
    unfolding n_dims_def partshape_def ftype_cur_def by blast
  from begin_record_Inr_D [OF b] obtain h where
    h: "write_tensor_header bo fout name n_dims (ftype_cur ftype) partshape = Inr h"
    and f1: "f1 = fout_write h (replicate (nat ((- fout_tell h) mod 32)) 0)"
    and off: "off = fout_tell h + (- fout_tell h) mod 32"
    by blast
  let ?pad = "nat ((- fout_tell h) mod 32)"
  from write_tensor_header_eq [OF h] obtain sname where
    s: "encode name = Inr sname"
    and r: "list_all int32 ([n_dims, int (length sname), ftype_cur ftype] @ rev partshape)"
    and h': "h = fout_write fout
                  (concat (map (\<lambda>v. native bo (le_bytes 4 v))
                     ([n_dims, int (length sname), ftype_cur ftype] @ rev partshape)) @ sname)"
    by blast
  let ?P = "concat (map (\<lambda>v. native bo (le_bytes 4 v))
              ([n_dims, int (length sname), ftype_cur ftype] @ rev partshape))"
  let ?H = "?P @ sname @ replicate ?pad 0"
  have lenP: "length ?P = 4 * (3 + nat n_dims)"
    unfolding length_packed by (simp add: partshape_def n_dims_def)
  have lenH: "length ?H = 4 * (3 + nat n_dims) + length sname + ?pad"
    using lenP by simp
  have p0: "0 \<le> (- fout_tell h) mod 32" and p1: "(- fout_tell h) mod 32 < 32"
    by simp_all
  have pad: "?pad < 32"
    using p0 p1 by linarith
  have f1H: "f1 = fout_write fout ?H"
    unfolding f1 h' fout_write_append by simp
  have tellh: "fout_tell h = int (cursor fout) + 4 * (3 + n_dims) + int (length sname)"
    unfolding h' fout_tell_def cursor_fout_write using lenP nd by auto
  have off': "off = int (cursor fout) + 4 * (3 + n_dims) + int (length sname) + int ?pad"
    unfolding off tellh [symmetric] using p0 by simp
  have al: "off mod 32 = 0"
    unfolding off by (rule aligned_offset)
  have cur1: "cursor f1 = cursor fout + length ?H"
    unfolding f1H by (rule cursor_fout_write)
  have m_off: "int (cursor fout + length ?H) = off"
    unfolding off' lenH using nd by auto
  have "0 < length ?H"
    unfolding lenH by simp
  then have ne: "?H \<noteq> []"
    unfolding length_greater_0_conv .
  have sz1: "cursor fout + length ?H \<le> fsize f1"
    unfolding f1H using ne by (rule fsize_fout_write_ge)
  have reg1: "region f1 (cursor fout) (length ?H) = ?H"
    unfolding f1H by (rule region_fout_write)
  have shp: "n_dims = 1 \<or> (0 \<le> partshape ! 0 \<and> 0 \<le> partshape ! 1)"
  proof (cases "n_dims = 1")
    case True
    then show ?thesis by simp
  next
    case False
    then have "length (arr_shape (squeeze datao)) = 2"
      using nd by (simp add: n_dims_def)
    then show ?thesis
      by (simp add: partshape_def)
  qed
  have keep: "same_below (cursor fout + length ?H) f1 f2"
    using d sz1 _ _ pid shp GGML_sizes_nonneg
  proof (rule write_data_same_below)
    show "int (cursor fout + length ?H) \<le> off"
      using m_off by simp
    show "cursor fout + length ?H \<le> cursor f1"
      using cur1 by simp
  qed
  from same_below_seek [OF sk] have keep': "same_below (cursor fout + length ?H) f2 fout'"
    and cur': "cursor fout' = nat (off + nbytes)" and pos: "0 \<le> off + nbytes"
    by simp_all
  have "region fout' (cursor fout) (length ?H) = region f1 (cursor fout) (length ?H)"
    using same_below_trans [OF keep keep'] by (rule same_below_region) simp
  then have "region fout' (cursor fout) (length ?H) = ?H"
    using reg1 by (rule trans)
  then have reg: "region fout' (cursor fout) (4 * (3 + nat n_dims) + length sname + ?pad) = ?H"
    unfolding lenH .
  have "fout_tell fout' = off + nbytes"
    using pos by (simp add: fout_tell_def cur')
  then have tell: "fout_tell fout'
      = int (cursor fout) + 4 * (3 + n_dims) + int (length sname) + int ?pad + nbytes"
    unfolding off' .
  have al': "(int (cursor fout) + 4 * (3 + n_dims) + int (length sname) + int ?pad) mod 32 = 0"
    using al off' by simp
  show ?thesis
    using s pad al' reg r nb tell
    by (intro exI [of _ sname] exI [of _ ?pad] exI [of _ nbytes] conjI)
qed

subsection \<open>Encoding of a tensor\<close>

lemma convert_data_cases:
  "convert_data ftype n_dims data =
     (if ftype = 0 \<or> n_dims = 1 then (0, astype data Float32) else (1, data))"
  by (simp add: convert_data_def)

text \<open>The third integer of a tensor's record in the file is the encoding chosen for it.\<close>

lemma write_variable_tag:
  fixes datao :: "'e ndarray"
  assumes "write_variable bo enc fout (name, datao) ftype part_id n_parts = Inr fout'"
    and "\<not> suffix (py_str ''freqs'') name"
    and "0 \<le> part_id"
  shows "convert_data ftype (int (length (arr_shape (squeeze datao)))) (squeeze datao)
           = (if ftype = 0 \<or> length (arr_shape (squeeze datao)) = 1
              then (0, astype (squeeze datao) Float32) else (1, squeeze datao))
       \<and> unpack_i bo (region fout' (cursor fout + 8) 4)
           = (if ftype = 0 \<or> length (arr_shape (squeeze datao)) = 1 then 0 else 1)
       \<and> WTYPES (unpack_i bo (region fout' (cursor fout + 8) 4))
           = Inr (if ftype = 0 \<or> length (arr_shape (squeeze datao)) = 1
                  then GGML_TYPE_F32 else GGML_TYPE_F16)
       \<and> WTYPES (unpack_i bo (region fout' (cursor fout + 8) 4)) \<noteq> Inr GGML_TYPE_Q4_0
       \<and> WTYPES (unpack_i bo (region fout' (cursor fout + 8) 4)) \<noteq> Inr GGML_TYPE_Q4_1"
proof -
  let ?n = "int (length (arr_shape (squeeze datao)))"
  let ?cur = "fst (convert_data ftype ?n (squeeze datao))"
  let ?shape = "map int (arr_shape (squeeze datao))"
  have cd: "convert_data ftype ?n (squeeze datao)
      = (if ftype = 0 \<or> length (arr_shape (squeeze datao)) = 1
         then (0, astype (squeeze datao) Float32) else (1, squeeze datao))"
    by (simp add: convert_data_cases)
  then have cur: "?cur = (if ftype = 0 \<or> length (arr_shape (squeeze datao)) = 1 then 0 else 1)"
    by simp
  from write_variable_record [OF assms] obtain sname pad where
    reg: "region fout' (cursor fout) (4 * (3 + nat ?n) + length sname + pad)
            = concat (map (\<lambda>v. native bo (le_bytes 4 v))
                ([?n, int (length sname), ?cur] @ rev ?shape)) @ sname @ replicate pad 0"
    and r: "list_all int32 ([?n, int (length sname), ?cur] @ rev ?shape)"
    by blast
  have l: "length (native bo (le_bytes 4 v)) = 4" for v
    by (simp add: length_native length_le_bytes)
  have "region fout' (cursor fout + 8) 4
      = take 4 (drop 8 (concat (map (\<lambda>v. native bo (le_bytes 4 v))
                ([?n, int (length sname), ?cur] @ rev ?shape)) @ sname @ replicate pad 0))"
    using reg by (rule region_slice) simp
  also have "\<dots> = native bo (le_bytes 4 ?cur)"
    by (simp add: l)
  finally have "unpack_i bo (region fout' (cursor fout + 8) 4) = ?cur"
    using r by (simp add: unpack_i_pack int32_def)
  then have tag: "unpack_i bo (region fout' (cursor fout + 8) 4)
      = (if ftype = 0 \<or> length (arr_shape (squeeze datao)) = 1 then 0 else 1)"
    using cur by simp
  show ?thesis
    unfolding tag using cd by (simp add: WTYPES_def)
qed

lemma begin_record_example:
  "\<exists>f1. begin_record LittleEndian fopen_wb (py_str ''norm.weight'') 1 0 [2] = Inr (f1, 32)"
proof -
  have h: "\<exists>h. write_tensor_header LittleEndian fopen_wb (py_str ''norm.weight'') 1 0 [2] = Inr h
      \<and> cursor h = 27"
    by (simp add: write_tensor_header_def py_str_simps utf8_char_def pack_i_def
        cursor_fout_write fopen_wb_def length_native length_le_bytes)
  have m: "(- 27) mod 32 = (5::int)"
    by simp
  show ?thesis
    using h by (auto simp: begin_record_def align_loop_eq fout_tell_def m)
qed

lemma not_freqs_example: "\<not> suffix (py_str ''freqs'') (py_str ''norm.weight'')"
  by (simp add: py_str_simps suffix_to_prefix)

subsection \<open>A tensor split across two shards\<close>

lemma upt_0_2: "[0..<2] = [0, 1::nat]"
  by (simp add: upt_rec)

lemma not_freqs_tok: "\<not> suffix (py_str ''freqs'') (py_str ''tok_embeddings.weight'')"
  by (simp add: py_str_simps suffix_to_prefix)

lemma split_dim_tok: "split_dim_of (py_str ''tok_embeddings.weight'') = 1"
  by (simp add: split_dim_of_def py_str_simps sublist_Cons_right)

lemma begin_record_tok:
  assumes "cursor fout = 36"
  shows "begin_record LittleEndian fout (py_str ''tok_embeddings.weight'') 2 1 [2, 2]
   = Inr (fout_write fout
       ([2, 0, 0, 0,  21, 0, 0, 0,  1, 0, 0, 0,  2, 0, 0, 0,  2, 0, 0, 0,
         116, 111, 107, 95, 101, 109, 98, 101, 100, 100, 105, 110, 103, 115, 46, 119, 101,
         105, 103, 104, 116] @ replicate 19 0), 96)"
proof -
  have h: "write_tensor_header LittleEndian fout (py_str ''tok_embeddings.weight'') 2 1 [2, 2]
      = Inr (fout_write fout
          [2, 0, 0, 0,  21, 0, 0, 0,  1, 0, 0, 0,  2, 0, 0, 0,  2, 0, 0, 0,
           116, 111, 107, 95, 101, 109, 98, 101, 100, 100, 105, 110, 103, 115, 46, 119, 101,
           105, 103, 104, 116])"
    by (simp add: write_tensor_header_def py_str_simps utf8_char_def pack_i_def le_bytes_4
        native_def fout_write_append)
  have m: "(- 77) mod 32 = (19::int)"
    by simp
  show ?thesis
    unfolding begin_record_def h sum.case align_loop_eq fout_tell_def cursor_fout_write assms
    by (simp add: m fout_write_append)
qed

lemma write_variable_tok:
  assumes "cursor fout = 36" and "k = 0 \<or> k = 1"
  shows "write_variable LittleEndian (\<lambda>dt e. [e, 0]) fout
      (py_str ''tok_embeddings.weight'',
       \<lparr>arr_shape = [2, 2], arr_dtype = Float16, arr_elems = [a, b, c, d]\<rparr>) 1 (int k) 2
   = Inr ((fout_write
            ((fout_write
               ((fout_write fout
                   ([2, 0, 0, 0,  21, 0, 0, 0,  1, 0, 0, 0,  2, 0, 0, 0,  2, 0, 0, 0,
                     116, 111, 107, 95, 101, 109, 98, 101, 100, 100, 105, 110, 103, 115, 46,
                     119, 101, 105, 103, 104, 116] @ replicate 19 0))
                \<lparr>cursor := 96 + 4 * k\<rparr>) [a, 0, b, 0])
             \<lparr>cursor := 100 + 4 * k\<rparr>) [c, 0, d, 0])
          \<lparr>cursor := 104\<rparr>)"
  using assms(2)
  unfolding write_variable_def Let_def fst_conv snd_conv
  by (auto simp add: Let_def not_freqs_tok split_dim_tok squeeze_def convert_data_def
      WTYPES_def begin_record_tok [OF assms(1)] write_data_def upt_0_2 get_row_def tofile_def
      tobytes_def fout_seek_def ggml_nbytes_def ggml_nelements_def cursor_fout_write)

lemma process_two_parts:
  assumes one: "\<And>fout k. cursor fout = 36 \<Longrightarrow> k = 0 \<or> k = 1 \<Longrightarrow>
      write_variable bo enc fout (name, if k = 0 then s0 else s1) 1 (int k) 2
        = Inr (W k fout)"
    and len: "length bs = 36"
  shows "process_parts bo enc (fout_write fopen_wb bs) 36 [[(name, s0)], [(name, s1)]] 1 2 [0, 1]
           = Inr (W 1 ((W 0 ((fout_write fopen_wb bs)\<lparr>cursor := 36\<rparr>))\<lparr>cursor := 36\<rparr>))"
proof -
  have c: "cursor (f\<lparr>cursor := 36\<rparr>) = 36" for f :: outfile
    by simp
  have w0: "write_variable bo enc ((fout_write fopen_wb bs)\<lparr>cursor := 36\<rparr>) (name, s0) 1 0 2
      = Inr (W 0 ((fout_write fopen_wb bs)\<lparr>cursor := 36\<rparr>))"
    using one [OF c, of 0] by simp
  have w1: "write_variable bo enc ((W 0 ((fout_write fopen_wb bs)\<lparr>cursor := 36\<rparr>))\<lparr>cursor := 36\<rparr>)
        (name, s1) 1 1 2
      = Inr (W 1 ((W 0 ((fout_write fopen_wb bs)\<lparr>cursor := 36\<rparr>))\<lparr>cursor := 36\<rparr>))"
    using one [OF c, of 1] by simp
  show ?thesis
    by (simp add: fout_seek_def w0 w1)
qed

lemma main_two_shards:
  fixes enc :: "np_dtype \<Rightarrow> 'e \<Rightarrow> byte list"
  assumes one: "\<And>fout k. cursor fout = 36 \<Longrightarrow> k = 0 \<or> k = 1 \<Longrightarrow>
      write_variable LittleEndian enc fout (name, if k = 0 then s0 else s1) 1 (int k) 2
        = Inr (W k fout)"
  shows "\<exists>bs. length bs = 36
      \<and> main LittleEndian enc int_other \<lparr>arg_ftype = 1, arg_vocab_only = False\<rparr>
           [''dim'' \<mapsto> 5120, ''multiple_of'' \<mapsto> 256, ''n_heads'' \<mapsto> 40, ''n_layers'' \<mapsto> 40]
           \<lparr>vocab_size = 0, is_unknown = (\<lambda>i. False), is_control = (\<lambda>i. False),
            is_byte = (\<lambda>i. False), id_to_piece = (\<lambda>i. []), get_score = (\<lambda>i. 0)\<rparr>
           [[(name, s0)], [(name, s1)]]
         = Done (W 1 ((W 0 ((fout_write fopen_wb bs)\<lparr>cursor := 36\<rparr>))\<lparr>cursor := 36\<rparr>))"
proof -
  let ?json = "[''dim'' \<mapsto> 5120, ''multiple_of'' \<mapsto> 256, ''n_heads'' \<mapsto> 40,
                ''n_layers'' \<mapsto> (40::int)]"
  let ?tok = "\<lparr>vocab_size = 0, is_unknown = (\<lambda>i. False), is_control = (\<lambda>i. False),
            is_byte = (\<lambda>i. False), id_to_piece = (\<lambda>i. []), get_score = (\<lambda>i. 0)\<rparr>"
  let ?hp = "fst (load_hparams_and_tokenizer ?json ?tok)"
  have tok: "snd (load_hparams_and_tokenizer ?json ?tok) = ?tok"
    by (simp add: load_hparams_and_tokenizer_def)
  have "\<exists>bs. write_header LittleEndian fopen_wb ?hp 1 = Inr (fout_write fopen_wb bs)
           \<and> length bs = 36"
    by (rule write_header_succeeds [where nv = 0 and d = 5120 and m = 256 and h = 40 and l = 40])
      (simp_all add: int32_def load_hparams_and_tokenizer_def)
  then obtain bs where h: "write_header LittleEndian fopen_wb ?hp 1 = Inr (fout_write fopen_wb bs)"
    and len: "length bs = 36"
    by blast
  have ht: "write_header_and_tokens LittleEndian int_other ?hp ?tok 1
      = Inr (fout_write fopen_wb bs)"
    by (simp add: write_header_and_tokens_def h write_tokens_def)
  have dim: "hget ?hp ''dim'' = Inr 5120"
    by (simp add: hget_def load_hparams_and_tokenizer_def)
  have np: "get_n_parts 5120 = Inr 2"
    by (simp add: get_n_parts_def)
  have tell: "fout_tell (fout_write fopen_wb bs) = 36"
    by (simp add: fout_tell_def cursor_fout_write len fopen_wb_def)
  have pp: "process_parts LittleEndian enc (fout_write fopen_wb bs) 36
      [[(name, s0)], [(name, s1)]] 1 2 [0, 1]
      = Inr (W 1 ((W 0 ((fout_write fopen_wb bs)\<lparr>cursor := 36\<rparr>))\<lparr>cursor := 36\<rparr>))"
    using one len by (rule process_two_parts)
  have "main LittleEndian enc int_other \<lparr>arg_ftype = 1, arg_vocab_only = False\<rparr> ?json ?tok
      [[(name, s0)], [(name, s1)]]
      = (case process_parts LittleEndian enc (fout_write fopen_wb bs) 36
                [[(name, s0)], [(name, s1)]] 1 2 [0, 1] of
           Inl e \<Rightarrow> FailedWhileWriting e
         | Inr fout' \<Rightarrow> Done fout')"
    unfolding main_def Let_def tok
    by (simp add: dim np ht tell upt_0_2 del: One_nat_def process_parts.simps)
  then have "main LittleEndian enc int_other \<lparr>arg_ftype = 1, arg_vocab_only = False\<rparr> ?json ?tok
      [[(name, s0)], [(name, s1)]]
      = Done (W 1 ((W 0 ((fout_write fopen_wb bs)\<lparr>cursor := 36\<rparr>))\<lparr>cursor := 36\<rparr>))"
    by (simp only: pp sum.case)
  with len show ?thesis
    by blast
qed

text \<open>
  C1, column partition. A conversion of two shards, each holding a 2 by 2 block of
  columns of the embedding table (elements 1 2 / 3 4 and 5 6 / 7 8, two bytes each):
  the whole tensor has the rows 1 2 5 6 and 3 4 7 8, sixteen bytes. The script steps from
  row to row by the width of the shard's row, not of the whole row, so the first row of
  shard 1 lands on the second row of shard 0: the body holds twelve bytes, and the
  elements 3 4 are lost.
\<close>

theorem column_split_shards_overlap:
  "\<exists>g. main LittleEndian (\<lambda>dt e. [e, 0]) (\<lambda>s. Inl ValueError)
          \<lparr>arg_ftype = 1, arg_vocab_only = False\<rparr>
          [''dim'' \<mapsto> 5120, ''multiple_of'' \<mapsto> 256, ''n_heads'' \<mapsto> 40, ''n_layers'' \<mapsto> 40]
          \<lparr>vocab_size = 0, is_unknown = (\<lambda>i. False), is_control = (\<lambda>i. False),
           is_byte = (\<lambda>i. False), id_to_piece = (\<lambda>i. []), get_score = (\<lambda>i. 0)\<rparr>
          [[(py_str ''tok_embeddings.weight'',
             \<lparr>arr_shape = [2, 2], arr_dtype = Float16, arr_elems = [1, 2, 3, 4]\<rparr>)],
           [(py_str ''tok_embeddings.weight'',
             \<lparr>arr_shape = [2, 2], arr_dtype = Float16, arr_elems = [5, 6, 7, 8]\<rparr>)]]
        = Done g
      \<and> split_dim_of (py_str ''tok_embeddings.weight'') = 1
      \<and> fsize g = 108
      \<and> region g 96 12 = [1, 0, 2, 0,  5, 0, 6, 0,  7, 0, 8, 0]
      \<and> spec_unsharded_body (\<lambda>dt e. [e, 0]) 1
           [\<lparr>arr_shape = [2, 2], arr_dtype = Float16, arr_elems = [1, 2, 3, 4]\<rparr>,
            \<lparr>arr_shape = [2, 2], arr_dtype = Float16, arr_elems = [5, 6, 7, 8]\<rparr>]
          = [1, 0, 2, 0,  5, 0, 6, 0,  3, 0, 4, 0,  7, 0, 8, 0]
      \<and> region g 96 16
          \<noteq> spec_unsharded_body (\<lambda>dt e. [e, 0]) 1
              [\<lparr>arr_shape = [2, 2], arr_dtype = Float16, arr_elems = [1, 2, 3, 4]\<rparr>,
               \<lparr>arr_shape = [2, 2], arr_dtype = Float16, arr_elems = [5, 6, 7, 8]\<rparr>]"
proof -
  let ?H = "[2, 0, 0, 0,  21, 0, 0, 0,  1, 0, 0, 0,  2, 0, 0, 0,  2, 0, 0, 0,
             116, 111, 107, 95, 101, 109, 98, 101, 100, 100, 105, 110, 103, 115, 46,
             119, 101, 105, 103, 104, 116] @ replicate 19 (0::byte)"
  let ?W = "\<lambda>(k::nat) fout.
      (fout_write
         ((fout_write
            ((fout_write fout ?H)\<lparr>cursor := 96 + 4 * k\<rparr>)
            (if k = 0 then [1, 0, 2, 0] else [5, 0, 6, 0]))
          \<lparr>cursor := 100 + 4 * k\<rparr>)
         (if k = 0 then [3, 0, 4, 0] else [7, 0, 8, 0]))
      \<lparr>cursor := 104\<rparr>"
  let ?s0 = "\<lparr>arr_shape = [2, 2], arr_dtype = Float16, arr_elems = [1, 2, 3, 4 :: byte]\<rparr>"
  let ?s1 = "\<lparr>arr_shape = [2, 2], arr_dtype = Float16, arr_elems = [5, 6, 7, 8 :: byte]\<rparr>"
  have one: "write_variable LittleEndian (\<lambda>dt e. [e, 0]) fout
        (py_str ''tok_embeddings.weight'', if k = 0 then ?s0 else ?s1) 1 (int k) 2
      = Inr (?W k fout)"
    if "cursor fout = 36" and "k = 0 \<or> k = 1" for fout and k :: nat
    using write_variable_tok [OF that, of 1 2 3 4] write_variable_tok [OF that, of 5 6 7 8] that(2)
    by auto
  from main_two_shards [of "\<lambda>dt e. [e, 0]" "py_str ''tok_embeddings.weight''" ?s0 ?s1 ?W,
      OF one]
  obtain bs where len: "length bs = 36"
    and m: "main LittleEndian (\<lambda>dt e. [e, 0]) (\<lambda>s. Inl ValueError)
          \<lparr>arg_ftype = 1, arg_vocab_only = False\<rparr>
          [''dim'' \<mapsto> 5120, ''multiple_of'' \<mapsto> 256, ''n_heads'' \<mapsto> 40, ''n_layers'' \<mapsto> 40]
          \<lparr>vocab_size = 0, is_unknown = (\<lambda>i. False), is_control = (\<lambda>i. False),
           is_byte = (\<lambda>i. False), id_to_piece = (\<lambda>i. []), get_score = (\<lambda>i. 0)\<rparr>
          [[(py_str ''tok_embeddings.weight'', ?s0)], [(py_str ''tok_embeddings.weight'', ?s1)]]
        = Done (?W 1 ((?W 0 ((fout_write fopen_wb bs)\<lparr>cursor := 36\<rparr>))\<lparr>cursor := 36\<rparr>))"
    by blast
  let ?g = "?W 1 ((?W 0 ((fout_write fopen_wb bs)\<lparr>cursor := 36\<rparr>))\<lparr>cursor := 36\<rparr>)"
  have ne: "bs \<noteq> []"
    using len by auto
  have sz: "fsize ?g = 108"
    using ne by (simp add: fsize_fout_write cursor_fout_write len fopen_wb_def)
  have u: "[96..<108] = [96, 97, 98, 99, 100, 101, 102, 103, 104, 105, 106, 107 :: nat]"
    by (simp add: upt_rec)
  have body: "region ?g 96 12 = [1, 0, 2, 0,  5, 0, 6, 0,  7, 0, 8, 0]"
    using ne by (simp add: region_def u bytes_at_fout_write fsize_fout_write cursor_fout_write len
        fopen_wb_def)
  have spec: "spec_unsharded_body (\<lambda>dt e. [e, 0]) 1 [?s0, ?s1]
      = [1, 0, 2, 0,  5, 0, 6, 0,  3, 0, 4, 0,  7, 0, 8, 0]"
    by (simp add: spec_unsharded_body_def upt_0_2 tobytes_def get_row_def)
  have "region ?g 96 16 = region ?g 96 12 @ region ?g 108 4"
    using region_append [of ?g 96 12 4] by simp
  then have "region ?g 96 16 \<noteq> spec_unsharded_body (\<lambda>dt e. [e, 0]) 1 [?s0, ?s1]"
    unfolding body spec by simp
  with m split_dim_tok sz body spec show ?thesis
    by blast
qed


lemma not_freqs_wq: "\<not> suffix (py_str ''freqs'') (py_str ''layers.0.attention.wq.weight'')"
  by (simp add: py_str_simps suffix_to_prefix)

lemma split_dim_wq: "split_dim_of (py_str ''layers.0.attention.wq.weight'') = 0"
  by (simp add: split_dim_of_def py_str_simps sublist_Cons_right)

lemma begin_record_wq:
  assumes "cursor fout = 36"
  shows "begin_record LittleEndian fout (py_str ''layers.0.attention.wq.weight'') 2 1 [2, 2]
   = Inr (fout_write fout
       ([2, 0, 0, 0,  28, 0, 0, 0,  1, 0, 0, 0,  2, 0, 0, 0,  2, 0, 0, 0,
         108, 97, 121, 101, 114, 115, 46, 48, 46, 97, 116, 116, 101, 110, 116, 105, 111, 110,
         46, 119, 113, 46, 119, 101, 105, 103, 104, 116] @ replicate 12 0), 96)"
proof -
  have h: "write_tensor_header LittleEndian fout (py_str ''layers.0.attention.wq.weight'') 2 1
        [2, 2]
      = Inr (fout_write fout
          [2, 0, 0, 0,  28, 0, 0, 0,  1, 0, 0, 0,  2, 0, 0, 0,  2, 0, 0, 0,
           108, 97, 121, 101, 114, 115, 46, 48, 46, 97, 116, 116, 101, 110, 116, 105, 111, 110,
           46, 119, 113, 46, 119, 101, 105, 103, 104, 116])"
    by (simp add: write_tensor_header_def py_str_simps utf8_char_def pack_i_def le_bytes_4
        native_def fout_write_append)
  have m: "(- 84) mod 32 = (12::int)"
    by simp
  show ?thesis
    unfolding begin_record_def h sum.case align_loop_eq fout_tell_def cursor_fout_write assms
    by (simp add: m fout_write_append)
qed

lemma write_variable_wq:
  assumes "cursor fout = 36" and "k = 0 \<or> k = 1"
  shows "write_variable LittleEndian (\<lambda>dt e. [e, 0]) fout
      (py_str ''layers.0.attention.wq.weight'',
       \<lparr>arr_shape = [2, 2], arr_dtype = Float16, arr_elems = [a, b, c, d]\<rparr>) 1 (int k) 2
   = Inr ((fout_write
            ((fout_write fout
                ([2, 0, 0, 0,  28, 0, 0, 0,  1, 0, 0, 0,  2, 0, 0, 0,  2, 0, 0, 0,
                  108, 97, 121, 101, 114, 115, 46, 48, 46, 97, 116, 116, 101, 110, 116, 105,
                  111, 110, 46, 119, 113, 46, 119, 101, 105, 103, 104, 116] @ replicate 12 0))
             \<lparr>cursor := 96 + 8 * k\<rparr>) [a, 0, b, 0, c, 0, d, 0])
          \<lparr>cursor := 104\<rparr>)"
  using assms(2)
  unfolding write_variable_def Let_def fst_conv snd_conv
  by (auto simp add: Let_def not_freqs_wq split_dim_wq squeeze_def convert_data_def
      WTYPES_def begin_record_wq [OF assms(1)] write_data_def tofile_def
      tobytes_def fout_seek_def ggml_nbytes_def ggml_nelements_def cursor_fout_write)

text \<open>
  C2. A conversion of two shards, each holding a 2 by 2 block of rows of a per-layer
  weight (elements 1 2 / 3 4 and 5 6 / 7 8, two bytes each). The body starts at offset 96
  and the two shards fill its sixteen bytes in order, as the unsharded tensor of shape
  4 by 2 requires; but after each shard the cursor is put at the body start plus the eight
  bytes of the shard's own shape, so it ends at 104, inside the body and on top of what
  shard 1 has just written, not at 112.
\<close>

theorem cursor_after_row_split_shard:
  "\<exists>g. main LittleEndian (\<lambda>dt e. [e, 0]) (\<lambda>s. Inl ValueError)
          \<lparr>arg_ftype = 1, arg_vocab_only = False\<rparr>
          [''dim'' \<mapsto> 5120, ''multiple_of'' \<mapsto> 256, ''n_heads'' \<mapsto> 40, ''n_layers'' \<mapsto> 40]
          \<lparr>vocab_size = 0, is_unknown = (\<lambda>i. False), is_control = (\<lambda>i. False),
           is_byte = (\<lambda>i. False), id_to_piece = (\<lambda>i. []), get_score = (\<lambda>i. 0)\<rparr>
          [[(py_str ''layers.0.attention.wq.weight'',
             \<lparr>arr_shape = [2, 2], arr_dtype = Float16, arr_elems = [1, 2, 3, 4]\<rparr>)],
           [(py_str ''layers.0.attention.wq.weight'',
             \<lparr>arr_shape = [2, 2], arr_dtype = Float16, arr_elems = [5, 6, 7, 8]\<rparr>)]]
        = Done g
      \<and> split_dim_of (py_str ''layers.0.attention.wq.weight'') = 0
      \<and> fsize g = 112
      \<and> region g 96 16 = [1, 0, 2, 0,  3, 0, 4, 0,  5, 0, 6, 0,  7, 0, 8, 0]
      \<and> spec_unsharded_body (\<lambda>dt e. [e, 0]) 0
           [\<lparr>arr_shape = [2, 2], arr_dtype = Float16, arr_elems = [1, 2, 3, 4]\<rparr>,
            \<lparr>arr_shape = [2, 2], arr_dtype = Float16, arr_elems = [5, 6, 7, 8]\<rparr>]
          = [1, 0, 2, 0,  3, 0, 4, 0,  5, 0, 6, 0,  7, 0, 8, 0]
      \<and> spec_full_shape 2 0 [2, 2] = [4, 2]
      \<and> ggml_nbytes (spec_full_shape 2 0 [2, 2]) 1 = Inr 16
      \<and> ggml_nbytes [2, 2] 1 = Inr 8
      \<and> fout_tell g = 96 + 8
      \<and> fout_tell g \<noteq> 96 + 16"
proof -
  let ?H = "[2, 0, 0, 0,  28, 0, 0, 0,  1, 0, 0, 0,  2, 0, 0, 0,  2, 0, 0, 0,
             108, 97, 121, 101, 114, 115, 46, 48, 46, 97, 116, 116, 101, 110, 116, 105,
             111, 110, 46, 119, 113, 46, 119, 101, 105, 103, 104, 116] @ replicate 12 (0::byte)"
  let ?W = "\<lambda>(k::nat) fout.
      (fout_write
         ((fout_write fout ?H)\<lparr>cursor := 96 + 8 * k\<rparr>)
         (if k = 0 then [1, 0, 2, 0, 3, 0, 4, 0] else [5, 0, 6, 0, 7, 0, 8, 0]))
      \<lparr>cursor := 104\<rparr>"
  let ?s0 = "\<lparr>arr_shape = [2, 2], arr_dtype = Float16, arr_elems = [1, 2, 3, 4 :: byte]\<rparr>"
  let ?s1 = "\<lparr>arr_shape = [2, 2], arr_dtype = Float16, arr_elems = [5, 6, 7, 8 :: byte]\<rparr>"
  have one: "write_variable LittleEndian (\<lambda>dt e. [e, 0]) fout
        (py_str ''layers.0.attention.wq.weight'', if k = 0 then ?s0 else ?s1) 1 (int k) 2
      = Inr (?W k fout)"
    if "cursor fout = 36" and "k = 0 \<or> k = 1" for fout and k :: nat
    using write_variable_wq [OF that, of 1 2 3 4] write_variable_wq [OF that, of 5 6 7 8] that(2)
    by auto
  from main_two_shards [of "\<lambda>dt e. [e, 0]" "py_str ''layers.0.attention.wq.weight''" ?s0 ?s1 ?W,
      OF one]
  obtain bs where len: "length bs = 36"
    and m: "main LittleEndian (\<lambda>dt e. [e, 0]) (\<lambda>s. Inl ValueError)
          \<lparr>arg_ftype = 1, arg_vocab_only = False\<rparr>
          [''dim'' \<mapsto> 5120, ''multiple_of'' \<mapsto> 256, ''n_heads'' \<mapsto> 40, ''n_layers'' \<mapsto> 40]
          \<lparr>vocab_size = 0, is_unknown = (\<lambda>i. False), is_control = (\<lambda>i. False),
           is_byte = (\<lambda>i. False), id_to_piece = (\<lambda>i. []), get_score = (\<lambda>i. 0)\<rparr>
          [[(py_str ''layers.0.attention.wq.weight'', ?s0)],
           [(py_str ''layers.0.attention.wq.weight'', ?s1)]]
        = Done (?W 1 ((?W 0 ((fout_write fopen_wb bs)\<lparr>cursor := 36\<rparr>))\<lparr>cursor := 36\<rparr>))"
    by blast
  let ?g = "?W 1 ((?W 0 ((fout_write fopen_wb bs)\<lparr>cursor := 36\<rparr>))\<lparr>cursor := 36\<rparr>)"
  have ne: "bs \<noteq> []"
    using len by auto
  have sz: "fsize ?g = 112"
    using ne by (simp add: fsize_fout_write cursor_fout_write len fopen_wb_def)
  have u: "[96..<112] = [96, 97, 98, 99, 100, 101, 102, 103, 104, 105, 106, 107, 108, 109,
                         110, 111 :: nat]"
    by (simp add: upt_rec)
  have body: "region ?g 96 16 = [1, 0, 2, 0,  3, 0, 4, 0,  5, 0, 6, 0,  7, 0, 8, 0]"
    using ne by (simp add: region_def u bytes_at_fout_write fsize_fout_write cursor_fout_write len
        fopen_wb_def)
  have spec: "spec_unsharded_body (\<lambda>dt e. [e, 0]) 0 [?s0, ?s1]
      = [1, 0, 2, 0,  3, 0, 4, 0,  5, 0, 6, 0,  7, 0, 8, 0]"
    by (simp add: spec_unsharded_body_def tobytes_def)
  have full: "spec_full_shape 2 0 [2, 2] = [4, 2]"
    by (simp add: spec_full_shape_def)
  have nfull: "ggml_nbytes (spec_full_shape 2 0 [2, 2]) 1 = Inr 16"
    unfolding full by (simp add: ggml_nbytes_def ggml_nelements_def WTYPES_def)
  have npart: "ggml_nbytes [2, 2] 1 = Inr 8"
    by (simp add: ggml_nbytes_def ggml_nelements_def WTYPES_def)
  have tell: "fout_tell ?g = 96 + 8"
    by (simp add: fout_tell_def)
  then have tell': "fout_tell ?g \<noteq> 96 + 16"
    by simp
  from m split_dim_wq sz body spec full nfull npart tell tell' show ?thesis
    by blast
qed

subsection \<open>The bytes of the body\<close>

lemma region_seek: "fout_seek f p = Inr g \<Longrightarrow> region g a n = region f a n"
  by (auto simp: fout_seek_def region_def split: if_splits)

lemma seek_write_region:
  assumes "fout_seek f p = Inr f'"
  shows "region (fout_write f' bs) (nat p) (length bs) = bs"
proof -
  from same_below_seek [OF assms] have "cursor f' = nat p"
    by simp
  then show ?thesis
    using region_fout_write [of f' bs] by simp
qed

lemma write_rows_same_below_from:
  assumes "write_rows enc f off data bytes_per_row offset_current_col rows = Inr g"
    and "m \<le> fsize f"
    and "\<forall>r\<in>set rows. int m \<le> off + (int r * bytes_per_row + offset_current_col)"
  shows "same_below m f g"
  using assms
proof (induction rows arbitrary: f)
  case Nil
  then show ?case by (simp add: same_below_refl)
next
  case (Cons row rows)
  let ?p = "off + (int row * bytes_per_row + offset_current_col)"
  from Cons.prems(1) obtain f' where s: "fout_seek f ?p = Inr f'"
    and rest: "write_rows enc (tofile enc (get_row data row) f') off data bytes_per_row
                 offset_current_col rows = Inr g"
    by (auto simp: Let_def split: sum.splits)
  have p: "int m \<le> ?p"
    using Cons.prems(3) by simp
  have one: "same_below m f (tofile enc (get_row data row) f')"
    unfolding tofile_def using s p Cons.prems(2) by (rule seek_write_same_below)
  then have "m \<le> fsize (tofile enc (get_row data row) f')"
    using same_below_fsize [OF one] Cons.prems(2) by linarith
  moreover have "\<forall>r\<in>set rows. int m \<le> off + (int r * bytes_per_row + offset_current_col)"
    using Cons.prems(3) by simp
  ultimately have "same_below m (tofile enc (get_row data row) f') g"
    using rest by (intro Cons.IH)
  with one show ?case
    by (rule same_below_trans)
qed

lemma write_rows_region:
  assumes "write_rows enc f off data bytes_per_row offset_current_col rows = Inr g"
    and "sorted_wrt (<) rows"
    and "0 \<le> bytes_per_row"
    and "\<forall>r\<in>set rows. length (tobytes enc (get_row data r)) = nat bytes_per_row"
    and "r \<in> set rows"
  shows "region g (nat (off + (int r * bytes_per_row + offset_current_col))) (nat bytes_per_row)
           = tobytes enc (get_row data r)"
  using assms(1,2,4,5)
proof (induction rows arbitrary: f)
  case Nil
  then show ?case by simp
next
  case (Cons row rows)
  let ?p = "off + (int row * bytes_per_row + offset_current_col)"
  let ?B = "tobytes enc (get_row data row)"
  from Cons.prems(1) obtain f' where s: "fout_seek f ?p = Inr f'"
    and rest: "write_rows enc (fout_write f' ?B) off data bytes_per_row
                 offset_current_col rows = Inr g"
    by (auto simp: Let_def tofile_def split: sum.splits)
  from same_below_seek [OF s] have cur: "cursor f' = nat ?p" and pos: "0 \<le> ?p"
    by simp_all
  have lenB: "length ?B = nat bytes_per_row"
    using Cons.prems(3) by simp
  show ?case
  proof (cases "r = row")
    case True
    show ?thesis
    proof (cases "?B = []")
      case True
      then have "nat bytes_per_row = 0"
        using lenB by simp
      then show ?thesis
        using \<open>r = row\<close> True by (simp add: region_def)
    next
      case False
      have here: "region (fout_write f' ?B) (nat ?p) (nat bytes_per_row) = ?B"
        using seek_write_region [OF s, of ?B] lenB by simp
      have sz: "nat ?p + nat bytes_per_row \<le> fsize (fout_write f' ?B)"
        using fsize_fout_write_ge [OF False, of f'] cur lenB by simp
      have later: "\<forall>r'\<in>set rows.
          int (nat ?p + nat bytes_per_row)
            \<le> off + (int r' * bytes_per_row + offset_current_col)"
      proof
        fix r'
        assume "r' \<in> set rows"
        then have "row < r'"
          using Cons.prems(2) by simp
        then have "int row + 1 \<le> int r'"
          by simp
        then have "(int row + 1) * bytes_per_row \<le> int r' * bytes_per_row"
          using assms(3) by (rule mult_right_mono)
        then have "int row * bytes_per_row + bytes_per_row \<le> int r' * bytes_per_row"
          by (simp add: algebra_simps)
        then show "int (nat ?p + nat bytes_per_row)
            \<le> off + (int r' * bytes_per_row + offset_current_col)"
          using pos assms(3) by simp
      qed
      have "same_below (nat ?p + nat bytes_per_row) (fout_write f' ?B) g"
        using rest sz later by (rule write_rows_same_below_from)
      then have "region g (nat ?p) (nat bytes_per_row)
          = region (fout_write f' ?B) (nat ?p) (nat bytes_per_row)"
        by (rule same_below_region) simp
      then show ?thesis
        using here \<open>r = row\<close> by simp
    qed
  next
    case False
    then have "r \<in> set rows"
      using Cons.prems(4) by simp
    moreover have "sorted_wrt (<) rows"
      using Cons.prems(2) by simp
    moreover have "\<forall>r\<in>set rows. length (tobytes enc (get_row data r)) = nat bytes_per_row"
      using Cons.prems(3) by simp
    ultimately show ?thesis
      using rest by (intro Cons.IH)
  qed
qed

lemma length_concat_map_const:
  "(\<And>x. length (f x) = k) \<Longrightarrow> length (concat (map f xs)) = length xs * k"
  by (induction xs) simp_all

lemma begin_record_cursor:
  assumes "begin_record bo fout name n_dims ftype_cur partshape = Inr (f1, off)"
  shows "0 \<le> off \<and> cursor f1 = nat off"
proof -
  from begin_record_Inr_D [OF assms] obtain h where
    f1: "f1 = fout_write h (replicate (nat ((- fout_tell h) mod 32)) 0)"
    and off: "off = fout_tell h + (- fout_tell h) mod 32"
    by blast
  have p0: "0 \<le> (- fout_tell h) mod 32"
    by simp
  have t0: "0 \<le> fout_tell h"
    by (simp add: fout_tell_def)
  have "0 \<le> off"
    unfolding off using p0 t0 by linarith
  moreover have "cursor f1 = nat off"
    unfolding f1 off cursor_fout_write using p0 by (simp add: fout_tell_def nat_add_distrib)
  ultimately show ?thesis
    by simp
qed

lemma write_variable_body:
  fixes datao :: "'e ndarray"
  defines "shape \<equiv> arr_shape (squeeze datao)"
  defines "conv \<equiv> (\<lambda>ftype. ftype = 0 \<or> length shape = 1)"
  defines "dt \<equiv> (\<lambda>ftype. if conv ftype then Float32 else arr_dtype datao)"
  defines "ts \<equiv> (\<lambda>ftype. if conv ftype then 4 else (2::int))"
  assumes w: "write_variable bo enc fout (name, datao) ftype part_id n_parts = Inr fout'"
    and nf: "\<not> suffix (py_str ''freqs'') name"
  shows "\<exists>f1 off.
           begin_record bo fout name (int (length shape)) (if conv ftype then 0 else 1)
             (map int shape) = Inr (f1, off)
         \<and> ((length shape = 1 \<or> n_parts = 1) \<and> part_id = 0 \<longrightarrow>
              region fout' (nat off) (length (concat (map (enc (dt ftype)) (arr_elems datao))))
                = concat (map (enc (dt ftype)) (arr_elems datao)))
         \<and> (length shape \<noteq> 1 \<and> n_parts \<noteq> 1 \<and> split_dim_of name = 0 \<longrightarrow>
              region fout'
                  (nat (off + part_id * int (shape ! 0) * (int (shape ! 1) * ts ftype)))
                  (length (concat (map (enc (dt ftype)) (arr_elems datao))))
                = concat (map (enc (dt ftype)) (arr_elems datao)))
         \<and> (length shape \<noteq> 1 \<and> n_parts \<noteq> 1 \<and> split_dim_of name = 1
              \<and> (\<forall>e. length (enc (dt ftype) e) = nat (ts ftype))
              \<and> length (arr_elems datao) = shape ! 0 * shape ! 1 \<longrightarrow>
              (\<forall>r. r < shape ! 0 \<longrightarrow>
                 region fout'
                     (nat (off + (int r * (int (shape ! 1) * ts ftype)
                            + part_id * int (shape ! 1) * ts ftype)))
                     (shape ! 1 * nat (ts ftype))
                   = concat (map (enc (dt ftype))
                       (take (shape ! 1) (drop (r * shape ! 1) (arr_elems datao))))))"
proof -
  let ?D = "snd (convert_data ftype (int (length shape)) (squeeze datao))"
  let ?tag = "fst (convert_data ftype (int (length shape)) (squeeze datao))"
  let ?B = "concat (map (enc (dt ftype)) (arr_elems datao))"
  from write_variable_Inr_D [OF w nf] obtain t f1 off f2 nbytes where
    nd: "length shape = 1 \<or> length shape = 2"
    and wt: "WTYPES ?tag = Inr t"
    and b: "begin_record bo fout name (int (length shape)) ?tag (map int shape) = Inr (f1, off)"
    and d: "write_data enc f1 off ?D (map int shape) (int (length shape)) (split_dim_of name)
              (GGML_BLCK_SIZE t) (GGML_TYPE_SIZE t) part_id n_parts = Inr f2"
    and sk: "fout_seek f2 (off + nbytes) = Inr fout'"
    unfolding shape_def by auto
  have tag: "?tag = (if conv ftype then 0 else 1)"
    by (simp add: convert_data_def conv_def)
  have Ddt: "arr_dtype ?D = dt ftype"
    by (simp add: convert_data_def conv_def dt_def astype_def squeeze_def)
  have Del: "arr_elems ?D = arr_elems datao"
    by (simp add: convert_data_def astype_def squeeze_def)
  have Dsh: "arr_shape ?D = shape"
    by (simp add: convert_data_def astype_def shape_def)
  have B: "tobytes enc ?D = ?B"
    by (simp only: tobytes_def Ddt Del)
  have sizes: "GGML_BLCK_SIZE t = 1 \<and> GGML_TYPE_SIZE t = ts ftype"
    using wt unfolding tag by (auto simp: WTYPES_def ts_def split: if_splits)
  from begin_record_cursor [OF b] have cur1: "cursor f1 = nat off"
    by simp
  have fin: "region fout' a n = region f2 a n" for a n
    using sk by (rule region_seek)
  have whole: "region fout' (nat off) (length ?B) = ?B"
    if "(length shape = 1 \<or> n_parts = 1) \<and> part_id = 0"
  proof -
    have "f2 = fout_write f1 ?B"
      using d that by (auto simp: write_data_def tofile_def B)
    then show ?thesis
      unfolding fin using region_fout_write [of f1 ?B] cur1 by simp
  qed
  have two: "(map int shape) ! 0 = int (shape ! 0) \<and> (map int shape) ! 1 = int (shape ! 1)"
    if "length shape \<noteq> 1"
    using that nd by simp
  have rows: "region fout'
        (nat (off + part_id * int (shape ! 0) * (int (shape ! 1) * ts ftype))) (length ?B) = ?B"
    if c: "length shape \<noteq> 1 \<and> n_parts \<noteq> 1 \<and> split_dim_of name = 0"
  proof -
    from d c obtain f' where
      s: "fout_seek f1 (off + part_id * int (shape ! 0) * (int (shape ! 1) * ts ftype)) = Inr f'"
      and f2: "f2 = fout_write f' ?B"
      using two sizes
      by (auto simp: write_data_def tofile_def B Let_def split: sum.splits)
    show ?thesis
      unfolding fin f2 using s by (rule seek_write_region)
  qed
  have cols: "region fout'
        (nat (off + (int r * (int (shape ! 1) * ts ftype)
               + part_id * int (shape ! 1) * ts ftype)))
        (shape ! 1 * nat (ts ftype))
      = concat (map (enc (dt ftype)) (take (shape ! 1) (drop (r * shape ! 1) (arr_elems datao))))"
    if c: "length shape \<noteq> 1 \<and> n_parts \<noteq> 1 \<and> split_dim_of name = 1
        \<and> (\<forall>e. length (enc (dt ftype) e) = nat (ts ftype))
        \<and> length (arr_elems datao) = shape ! 0 * shape ! 1"
      and r: "r < shape ! 0" for r
  proof -
    let ?C = "shape ! 1"
    let ?bpr = "int ?C * ts ftype"
    let ?col = "part_id * int ?C * ts ftype"
    have ts0: "0 \<le> ts ftype"
      by (simp add: ts_def)
    have bpr0: "0 \<le> ?bpr"
      using ts0 by simp
    have nbpr: "nat ?bpr = ?C * nat (ts ftype)"
      using ts0 by (simp add: nat_mult_distrib)
    have wr: "write_rows enc f1 off ?D ?bpr ?col [0..<shape ! 0] = Inr f2"
      using d c two sizes by (simp add: write_data_def Let_def)
    have row_bytes: "tobytes enc (get_row ?D q)
        = concat (map (enc (dt ftype)) (take ?C (drop (q * ?C) (arr_elems datao))))" for q
      by (simp add: tobytes_def get_row_def Let_def Ddt Del Dsh)
    have row_len: "length (tobytes enc (get_row ?D q)) = nat ?bpr" if "q < shape ! 0" for q
    proof -
      have "Suc q \<le> shape ! 0"
        using that by simp
      then have "Suc q * ?C \<le> shape ! 0 * ?C"
        by (rule mult_le_mono1)
      then have "q * ?C + ?C \<le> length (arr_elems datao)"
        using c by simp
      then have "length (take ?C (drop (q * ?C) (arr_elems datao))) = ?C"
        by simp
      moreover have "length (concat (map (enc (dt ftype)) xs)) = length xs * nat (ts ftype)" for xs
        using c by (intro length_concat_map_const) simp
      ultimately show ?thesis
        unfolding row_bytes nbpr by simp
    qed
    have "region f2 (nat (off + (int r * ?bpr + ?col))) (nat ?bpr) = tobytes enc (get_row ?D r)"
      using wr sorted_wrt_upt bpr0
    proof (rule write_rows_region)
      show "\<forall>q\<in>set [0..<shape ! 0]. length (tobytes enc (get_row ?D q)) = nat ?bpr"
        using row_len by simp
      show "r \<in> set [0..<shape ! 0]"
        using r by simp
    qed
    then show ?thesis
      unfolding fin row_bytes nbpr .
  qed
  show ?thesis
    using b whole rows cols unfolding tag
    by (intro exI [of _ f1] exI [of _ off] conjI impI allI) auto
qed

lemma begin_record_tok0:
  "\<exists>f1. begin_record LittleEndian fopen_wb (py_str ''tok_embeddings.weight'') 2 0 [2, 2]
          = Inr (f1, 64)"
proof -
  have h: "\<exists>h. write_tensor_header LittleEndian fopen_wb (py_str ''tok_embeddings.weight'') 2 0
                 [2, 2] = Inr h \<and> cursor h = 41"
    by (simp add: write_tensor_header_def py_str_simps utf8_char_def pack_i_def
        cursor_fout_write fopen_wb_def length_native length_le_bytes)
  have m: "(- 41) mod 32 = (23::int)"
    by simp
  show ?thesis
    using h by (auto simp: begin_record_def align_loop_eq fout_tell_def m)
qed

lemma begin_record_wq1:
  "\<exists>f1. begin_record LittleEndian fopen_wb (py_str ''layers.0.attention.wq.weight'') 2 1 [2, 2]
          = Inr (f1, 64)"
proof -
  have h: "\<exists>h. write_tensor_header LittleEndian fopen_wb
                 (py_str ''layers.0.attention.wq.weight'') 2 1 [2, 2] = Inr h \<and> cursor h = 48"
    by (simp add: write_tensor_header_def py_str_simps utf8_char_def pack_i_def
        cursor_fout_write fopen_wb_def length_native length_le_bytes)
  have m: "(- 48) mod 32 = (16::int)"
    by simp
  show ?thesis
    using h by (auto simp: begin_record_def align_loop_eq fout_tell_def m)
qed

lemma write_variable_norm_ok:
  "\<exists>fout'. write_variable LittleEndian enc fopen_wb
       (py_str ''norm.weight'', \<lparr>arr_shape = [2], arr_dtype = Float16, arr_elems = es\<rparr>)
       1 0 1 = Inr fout'"
proof -
  from begin_record_example obtain f1 where
    b: "begin_record LittleEndian fopen_wb (py_str ''norm.weight'') 1 0 [2] = Inr (f1, 32)"
    by blast
  show ?thesis
    unfolding write_variable_def Let_def fst_conv snd_conv
    by (simp add: not_freqs_example squeeze_def convert_data_def WTYPES_def astype_def b
        write_data_def tofile_def ggml_nbytes_def ggml_nelements_def fout_seek_def)
qed

lemma write_variable_tok0_ok:
  "\<exists>fout'. write_variable LittleEndian enc fopen_wb
       (py_str ''tok_embeddings.weight'',
        \<lparr>arr_shape = [2, 2], arr_dtype = Float16, arr_elems = es\<rparr>)
       0 1 2 = Inr fout'"
proof -
  from begin_record_tok0 obtain f1 where
    b: "begin_record LittleEndian fopen_wb (py_str ''tok_embeddings.weight'') 2 0 [2, 2]
          = Inr (f1, 64)"
    by blast
  show ?thesis
    unfolding write_variable_def Let_def fst_conv snd_conv
    by (simp add: Let_def not_freqs_tok split_dim_tok squeeze_def convert_data_def WTYPES_def
        astype_def b write_data_def upt_0_2 tofile_def ggml_nbytes_def ggml_nelements_def
        fout_seek_def)
qed

lemma write_variable_wq1_ok:
  "\<exists>fout'. write_variable LittleEndian enc fopen_wb
       (py_str ''layers.0.attention.wq.weight'',
        \<lparr>arr_shape = [2, 2], arr_dtype = Float16, arr_elems = es\<rparr>)
       1 1 2 = Inr fout'"
proof -
  from begin_record_wq1 obtain f1 where
    b: "begin_record LittleEndian fopen_wb (py_str ''layers.0.attention.wq.weight'') 2 1 [2, 2]
          = Inr (f1, 64)"
    by blast
  show ?thesis
    unfolding write_variable_def Let_def fst_conv snd_conv
    by (simp add: Let_def not_freqs_wq split_dim_wq squeeze_def convert_data_def WTYPES_def
        astype_def b write_data_def tofile_def ggml_nbytes_def ggml_nelements_def
        fout_seek_def)
qed

subsection \<open>Encoding and element type of what is written\<close>

text \<open>
  C5. The encoding of a tensor is a function of the selector and the rank alone: 0
  (F32), with the data converted to 32-bit floats, if the selector is 0 or the rank is
  1, and 1 (F16), with the data as loaded, if not. This is the third integer of the
  tensor's record in the file, and for no selector does it stand for Q4\_0 or Q4\_1.
  The array handed to the writer has the element type Float32 in the first case and the
  element type of the checkpoint in the second, and the bytes of the elements under that
  element type are what the file holds in the body: at the body start for a tensor that
  is not split, at the shard's row block for a row partition and, when every element
  takes as many bytes as the encoding says, row by row for a column partition.
\<close>

theorem tensor_encoding_tag:
  fixes datao :: "'e ndarray"
  defines "shape \<equiv> arr_shape (squeeze datao)"
  defines "conv \<equiv> (\<lambda>ftype. ftype = 0 \<or> length shape = 1)"
  defines "dt \<equiv> (\<lambda>ftype. if conv ftype then Float32 else arr_dtype datao)"
  defines "ts \<equiv> (\<lambda>ftype. if conv ftype then 4 else (2::int))"
  assumes "write_variable bo enc fout (name, datao) ftype part_id n_parts = Inr fout'"
    and "\<not> suffix (py_str ''freqs'') name"
    and "0 \<le> part_id"
  shows "convert_data ftype (int (length shape)) (squeeze datao)
           = (if conv ftype then (0, astype (squeeze datao) Float32) else (1, squeeze datao))
       \<and> unpack_i bo (region fout' (cursor fout + 8) 4) = (if conv ftype then 0 else 1)
       \<and> WTYPES (unpack_i bo (region fout' (cursor fout + 8) 4))
           = Inr (if conv ftype then GGML_TYPE_F32 else GGML_TYPE_F16)
       \<and> WTYPES (unpack_i bo (region fout' (cursor fout + 8) 4)) \<noteq> Inr GGML_TYPE_Q4_0
       \<and> WTYPES (unpack_i bo (region fout' (cursor fout + 8) 4)) \<noteq> Inr GGML_TYPE_Q4_1
       \<and> arr_dtype (snd (convert_data ftype (int (length shape)) (squeeze datao))) = dt ftype
       \<and> arr_elems (snd (convert_data ftype (int (length shape)) (squeeze datao)))
           = arr_elems datao
       \<and> (\<exists>f1 off.
             begin_record bo fout name (int (length shape)) (if conv ftype then 0 else 1)
               (map int shape) = Inr (f1, off)
           \<and> ((length shape = 1 \<or> n_parts = 1) \<and> part_id = 0 \<longrightarrow>
                region fout' (nat off) (length (concat (map (enc (dt ftype)) (arr_elems datao))))
                  = concat (map (enc (dt ftype)) (arr_elems datao)))
           \<and> (length shape \<noteq> 1 \<and> n_parts \<noteq> 1 \<and> split_dim_of name = 0 \<longrightarrow>
                region fout'
                    (nat (off + part_id * int (shape ! 0) * (int (shape ! 1) * ts ftype)))
                    (length (concat (map (enc (dt ftype)) (arr_elems datao))))
                  = concat (map (enc (dt ftype)) (arr_elems datao)))
           \<and> (length shape \<noteq> 1 \<and> n_parts \<noteq> 1 \<and> split_dim_of name = 1
                \<and> (\<forall>e. length (enc (dt ftype) e) = nat (ts ftype))
                \<and> length (arr_elems datao) = shape ! 0 * shape ! 1 \<longrightarrow>
                (\<forall>r. r < shape ! 0 \<longrightarrow>
                   region fout'
                       (nat (off + (int r * (int (shape ! 1) * ts ftype)
                              + part_id * int (shape ! 1) * ts ftype)))
                       (shape ! 1 * nat (ts ftype))
                     = concat (map (enc (dt ftype))
                         (take (shape ! 1) (drop (r * shape ! 1) (arr_elems datao)))))))"
proof -
  have tag: "convert_data ftype (int (length shape)) (squeeze datao)
           = (if conv ftype then (0, astype (squeeze datao) Float32) else (1, squeeze datao))
       \<and> unpack_i bo (region fout' (cursor fout + 8) 4) = (if conv ftype then 0 else 1)
       \<and> WTYPES (unpack_i bo (region fout' (cursor fout + 8) 4))
           = Inr (if conv ftype then GGML_TYPE_F32 else GGML_TYPE_F16)
       \<and> WTYPES (unpack_i bo (region fout' (cursor fout + 8) 4)) \<noteq> Inr GGML_TYPE_Q4_0
       \<and> WTYPES (unpack_i bo (region fout' (cursor fout + 8) 4)) \<noteq> Inr GGML_TYPE_Q4_1"
    unfolding conv_def shape_def using assms(5-7) by (rule write_variable_tag)
  have dtype: "arr_dtype (snd (convert_data ftype (int (length shape)) (squeeze datao)))
      = dt ftype"
    by (simp add: convert_data_def conv_def dt_def astype_def squeeze_def)
  have elems: "arr_elems (snd (convert_data ftype (int (length shape)) (squeeze datao)))
      = arr_elems datao"
    by (simp add: convert_data_def astype_def squeeze_def)
  have body: "\<exists>f1 off.
             begin_record bo fout name (int (length shape)) (if conv ftype then 0 else 1)
               (map int shape) = Inr (f1, off)
           \<and> ((length shape = 1 \<or> n_parts = 1) \<and> part_id = 0 \<longrightarrow>
                region fout' (nat off) (length (concat (map (enc (dt ftype)) (arr_elems datao))))
                  = concat (map (enc (dt ftype)) (arr_elems datao)))
           \<and> (length shape \<noteq> 1 \<and> n_parts \<noteq> 1 \<and> split_dim_of name = 0 \<longrightarrow>
                region fout'
                    (nat (off + part_id * int (shape ! 0) * (int (shape ! 1) * ts ftype)))
                    (length (concat (map (enc (dt ftype)) (arr_elems datao))))
                  = concat (map (enc (dt ftype)) (arr_elems datao)))
           \<and> (length shape \<noteq> 1 \<and> n_parts \<noteq> 1 \<and> split_dim_of name = 1
                \<and> (\<forall>e. length (enc (dt ftype) e) = nat (ts ftype))
                \<and> length (arr_elems datao) = shape ! 0 * shape ! 1 \<longrightarrow>
                (\<forall>r. r < shape ! 0 \<longrightarrow>
                   region fout'
                       (nat (off + (int r * (int (shape ! 1) * ts ftype)
                              + part_id * int (shape ! 1) * ts ftype)))
                       (shape ! 1 * nat (ts ftype))
                     = concat (map (enc (dt ftype))
                         (take (shape ! 1) (drop (r * shape ! 1) (arr_elems datao))))))"
    unfolding ts_def dt_def conv_def shape_def using assms(5,6) by (rule write_variable_body)
  from dtype elems body have rest: "arr_dtype (snd (convert_data ftype (int (length shape)) (squeeze datao))) = dt ftype
       \<and> arr_elems (snd (convert_data ftype (int (length shape)) (squeeze datao)))
           = arr_elems datao
       \<and> (\<exists>f1 off.
             begin_record bo fout name (int (length shape)) (if conv ftype then 0 else 1)
               (map int shape) = Inr (f1, off)
           \<and> ((length shape = 1 \<or> n_parts = 1) \<and> part_id = 0 \<longrightarrow>
                region fout' (nat off) (length (concat (map (enc (dt ftype)) (arr_elems datao))))
                  = concat (map (enc (dt ftype)) (arr_elems datao)))
           \<and> (length shape \<noteq> 1 \<and> n_parts \<noteq> 1 \<and> split_dim_of name = 0 \<longrightarrow>
                region fout'
                    (nat (off + part_id * int (shape ! 0) * (int (shape ! 1) * ts ftype)))
                    (length (concat (map (enc (dt ftype)) (arr_elems datao))))
                  = concat (map (enc (dt ftype)) (arr_elems datao)))
           \<and> (length shape \<noteq> 1 \<and> n_parts \<noteq> 1 \<and> split_dim_of name = 1
                \<and> (\<forall>e. length (enc (dt ftype) e) = nat (ts ftype))
                \<and> length (arr_elems datao) = shape ! 0 * shape ! 1 \<longrightarrow>
                (\<forall>r. r < shape ! 0 \<longrightarrow>
                   region fout'
                       (nat (off + (int r * (int (shape ! 1) * ts ftype)
                              + part_id * int (shape ! 1) * ts ftype)))
                       (shape ! 1 * nat (ts ftype))
                     = concat (map (enc (dt ftype))
                         (take (shape ! 1) (drop (r * shape ! 1) (arr_elems datao)))))))"
    by (intro conjI)
  show ?thesis
    using conjI [OF tag rest] unfolding conj_assoc .
qed

theorem tensor_encoding_tag_witness:
  "(let enc = (\<lambda>dt e. case dt of Float16 \<Rightarrow> [e, 0] | Float32 \<Rightarrow> [e, 0, 0, 0]
                       | Float64 \<Rightarrow> [e, 0, 0, 0, 0, 0, 0, 0])
    in (\<exists>fout'. write_variable LittleEndian enc fopen_wb
            (py_str ''norm.weight'',
             \<lparr>arr_shape = [2], arr_dtype = Float16, arr_elems = [1, 2]\<rparr>) 1 0 1 = Inr fout'
          \<and> \<not> suffix (py_str ''freqs'') (py_str ''norm.weight'')
          \<and> unpack_i LittleEndian (region fout' 8 4) = 0
          \<and> WTYPES (unpack_i LittleEndian (region fout' 8 4)) = Inr GGML_TYPE_F32
          \<and> region fout' 32 8 = [1, 0, 0, 0,  2, 0, 0, 0])
     \<and> (\<exists>fout'. write_variable LittleEndian enc fopen_wb
            (py_str ''tok_embeddings.weight'',
             \<lparr>arr_shape = [2, 2], arr_dtype = Float16, arr_elems = [1, 2, 3, 4]\<rparr>) 0 1 2
              = Inr fout'
          \<and> unpack_i LittleEndian (region fout' 8 4) = 0
          \<and> region fout' 72 8 = [1, 0, 0, 0,  2, 0, 0, 0]
          \<and> region fout' 80 8 = [3, 0, 0, 0,  4, 0, 0, 0])
     \<and> (\<exists>fout'. write_variable LittleEndian enc fopen_wb
            (py_str ''layers.0.attention.wq.weight'',
             \<lparr>arr_shape = [2, 2], arr_dtype = Float16, arr_elems = [1, 2, 3, 4]\<rparr>) 1 1 2
              = Inr fout'
          \<and> unpack_i LittleEndian (region fout' 8 4) = 1
          \<and> WTYPES (unpack_i LittleEndian (region fout' 8 4)) = Inr GGML_TYPE_F16
          \<and> region fout' 72 8 = [1, 0,  2, 0,  3, 0,  4, 0]))"
proof -
  let ?enc = "\<lambda>dt (e::byte). case dt of Float16 \<Rightarrow> [e, 0] | Float32 \<Rightarrow> [e, 0, 0, 0]
                       | Float64 \<Rightarrow> [e, 0, 0, 0, 0, 0, 0, 0]"
  have pid0: "(0::int) \<le> 0" and pid1: "(0::int) \<le> 1"
    by simp_all
  have l8: "length [a, b, c, d, e, f, g, h] = 8" for a b c d e f g h :: byte
    by simp
  have A: "\<exists>fout'. write_variable LittleEndian ?enc fopen_wb
            (py_str ''norm.weight'',
             \<lparr>arr_shape = [2], arr_dtype = Float16, arr_elems = [1, 2]\<rparr>) 1 0 1 = Inr fout'
          \<and> \<not> suffix (py_str ''freqs'') (py_str ''norm.weight'')
          \<and> unpack_i LittleEndian (region fout' 8 4) = 0
          \<and> WTYPES (unpack_i LittleEndian (region fout' 8 4)) = Inr GGML_TYPE_F32
          \<and> region fout' 32 8 = [1, 0, 0, 0,  2, 0, 0, 0]"
  proof -
    from write_variable_norm_ok [of ?enc "[1, 2]"] obtain fout' where
      w: "write_variable LittleEndian ?enc fopen_wb
            (py_str ''norm.weight'',
             \<lparr>arr_shape = [2], arr_dtype = Float16, arr_elems = [1, 2]\<rparr>) 1 0 1 = Inr fout'"
      by blast
    from tensor_encoding_tag [OF w not_freqs_example pid0]
    have tg: "unpack_i LittleEndian (region fout' 8 4) = 0"
      and bd: "\<exists>f1 off. begin_record LittleEndian fopen_wb (py_str ''norm.weight'') 1 0 [2]
                  = Inr (f1, off)
               \<and> region fout' (nat off) (length [1, 0, 0, 0,  2, 0, 0, 0 :: byte])
                   = [1, 0, 0, 0,  2, 0, 0, 0]"
      by (simp_all add: squeeze_def fopen_wb_def)
    from bd begin_record_example
    have "region fout' 32 (length [1, 0, 0, 0,  2, 0, 0, 0 :: byte]) = [1, 0, 0, 0,  2, 0, 0, 0]"
      by auto
    then have "region fout' 32 8 = [1, 0, 0, 0,  2, 0, 0, 0]"
      unfolding l8 .
    with w tg not_freqs_example show ?thesis
      by (auto simp: WTYPES_def)
  qed
  have B: "\<exists>fout'. write_variable LittleEndian ?enc fopen_wb
            (py_str ''tok_embeddings.weight'',
             \<lparr>arr_shape = [2, 2], arr_dtype = Float16, arr_elems = [1, 2, 3, 4]\<rparr>) 0 1 2
              = Inr fout'
          \<and> unpack_i LittleEndian (region fout' 8 4) = 0
          \<and> region fout' 72 8 = [1, 0, 0, 0,  2, 0, 0, 0]
          \<and> region fout' 80 8 = [3, 0, 0, 0,  4, 0, 0, 0]"
  proof -
    from write_variable_tok0_ok [of ?enc "[1, 2, 3, 4]"] obtain fout' where
      w: "write_variable LittleEndian ?enc fopen_wb
            (py_str ''tok_embeddings.weight'',
             \<lparr>arr_shape = [2, 2], arr_dtype = Float16, arr_elems = [1, 2, 3, 4]\<rparr>) 0 1 2
              = Inr fout'"
      by blast
    from tensor_encoding_tag [OF w not_freqs_tok pid1]
    have tg: "unpack_i LittleEndian (region fout' 8 4) = 0"
      and bd: "\<exists>f1 off. begin_record LittleEndian fopen_wb (py_str ''tok_embeddings.weight'')
                  2 0 [2, 2] = Inr (f1, off)
               \<and> (\<forall>r<2. region fout' (nat (off + (int r * 8 + 8))) 8
                     = concat (map (?enc Float32) (take 2 (drop (r * 2) [1, 2, 3, 4]))))"
      by (simp_all add: squeeze_def fopen_wb_def split_dim_tok)
    from bd begin_record_tok0 have r: "\<forall>r<2. region fout' (nat (64 + (int r * 8 + 8))) 8
                     = concat (map (?enc Float32) (take 2 (drop (r * 2) [1, 2, 3, 4])))"
      by auto
    from r [rule_format, of 0] r [rule_format, of 1]
    have "region fout' 72 8 = [1, 0, 0, 0,  2, 0, 0, 0]"
      and "region fout' 80 8 = [3, 0, 0, 0,  4, 0, 0, 0]"
      by simp_all
    with w tg show ?thesis
      by auto
  qed
  have C: "\<exists>fout'. write_variable LittleEndian ?enc fopen_wb
            (py_str ''layers.0.attention.wq.weight'',
             \<lparr>arr_shape = [2, 2], arr_dtype = Float16, arr_elems = [1, 2, 3, 4]\<rparr>) 1 1 2
              = Inr fout'
          \<and> unpack_i LittleEndian (region fout' 8 4) = 1
          \<and> WTYPES (unpack_i LittleEndian (region fout' 8 4)) = Inr GGML_TYPE_F16
          \<and> region fout' 72 8 = [1, 0,  2, 0,  3, 0,  4, 0]"
  proof -
    from write_variable_wq1_ok [of ?enc "[1, 2, 3, 4]"] obtain fout' where
      w: "write_variable LittleEndian ?enc fopen_wb
            (py_str ''layers.0.attention.wq.weight'',
             \<lparr>arr_shape = [2, 2], arr_dtype = Float16, arr_elems = [1, 2, 3, 4]\<rparr>) 1 1 2
              = Inr fout'"
      by blast
    from tensor_encoding_tag [OF w not_freqs_wq pid1]
    have tg: "unpack_i LittleEndian (region fout' 8 4) = 1"
      and bd: "\<exists>f1 off. begin_record LittleEndian fopen_wb
                  (py_str ''layers.0.attention.wq.weight'') 2 1 [2, 2] = Inr (f1, off)
               \<and> region fout' (nat (off + 8)) (length [1, 0,  2, 0,  3, 0,  4, 0 :: byte])
                   = [1, 0,  2, 0,  3, 0,  4, 0]"
      by (simp_all add: squeeze_def fopen_wb_def split_dim_wq)
    from bd begin_record_wq1
    have "region fout' 72 (length [1, 0,  2, 0,  3, 0,  4, 0 :: byte]) = [1, 0,  2, 0,  3, 0,  4, 0]"
      by auto
    then have "region fout' 72 8 = [1, 0,  2, 0,  3, 0,  4, 0]"
      unfolding l8 .
    with w tg show ?thesis
      by (auto simp: WTYPES_def)
  qed
  from A B C show ?thesis
    unfolding Let_def by (intro conjI)
qed

end
